theory Spec2Isabelle
  imports Main "HOL-Library.Sublist"
begin

section \<open>Data model\<close>

text \<open>
  JavaScript strings are modelled as \<open>string\<close>; \<open>startsWith\<close>, \<open>endsWith\<close> and
  \<open>includes\<close> are \<open>prefix\<close>, \<open>suffix\<close> and \<open>sublist\<close>.  Wall-clock fields
  (\<open>timestamp\<close>, \<open>responseTime\<close>, \<open>duration\<close>) and console output are left out: no
  function below branches on them.
\<close>

subsection \<open>Links (lib/LinkExtractor.js, lib/LinkChecker.js)\<close>

text \<open>The five values of \<open>link.status\<close> written by \<open>LinkChecker\<close>.\<close>

datatype category = Ok | Broken | Warning | Timeout | Error

record position =
  line :: nat
  html :: string

text \<open>The object literal returned by \<open>extractSingleLink\<close>; \<open>linkType\<close> is the optional
  \<open>type\<close> property, \<open>duplicateCount\<close> the optional counter set by \<open>deduplicateLinks\<close>.\<close>

record link =
  url :: string
  originalHref :: string
  linkText :: string
  element :: string
  isInternal :: bool
  position :: position
  foundOn :: string
  linkType :: "string option"
  duplicateCount :: "nat option"

text \<open>A link after verification: \<open>{...link, status, statusCode, ...}\<close>.\<close>

record checked_link = link +
  status :: category
  statusCode :: nat
  errorMessage :: "string option"
  errorCode :: "string option"
  contentType :: "string option"
  lastModified :: "string option"
  redirected :: "bool option"
  finalUrl :: "string option"

text \<open>The counters \<open>this.stats\<close> of a \<open>LinkChecker\<close>.\<close>

record stats =
  pagesScanned :: nat
  linksChecked :: nat
  errors404 :: nat
  errorsOther :: nat
  timeouts :: nat

subsection \<open>The HTTP transport (axios)\<close>

text \<open>
  What \<open>await axios.get(url, this.axiosConfig)\<close> can do.  The configuration sets
  \<open>validateStatus: () => true\<close>, so every status code resolves; a rejection carries an
  optional \<open>code\<close>, an optional \<open>response\<close> (of which only the status is read) and a
  message.  Of a resolved response the checker reads the status, two headers and
  \<open>request.res?.responseUrl\<close>; \<open>body\<close> is \<open>response.data\<close> when that is a
  string, and \<open>None\<close> when the transport has decoded the answer into another value
  (a JSON document), which the HTML parser refuses with an exception.
\<close>

record response =
  rstatus :: nat
  header_content_type :: "string option"
  header_last_modified :: "string option"
  responseUrl :: "string option"
  body :: "string option"

record axios_error =
  code :: "string option"
  err_response :: "nat option"
  message :: string

datatype axios_outcome = Resolved response | Rejected axios_error

section \<open>Platform: strings and the URL class\<close>

text \<open>
  The functions of this section are not code of the repository: they stand for built-ins of
  the JavaScript platform the repository calls.  Characters are 8-bit code units; a string
  with code units above 255 is outside the model.
\<close>

definition js_space :: "char \<Rightarrow> bool" where
  "js_space c = (of_char c \<in> {9, 10, 11, 12, 13, 32, 160 :: nat})"

text \<open>\<open>String.prototype.trim\<close>.\<close>

definition trim :: "string \<Rightarrow> string" where
  "trim s = rev (dropWhile js_space (rev (dropWhile js_space s)))"

text \<open>\<open>String.prototype.toLowerCase\<close> on the letters A-Z (the only letters a URL path can
  hold unescaped).\<close>

definition lower_char :: "char \<Rightarrow> char" where
  "lower_char c = (if 65 \<le> (of_char c :: nat) \<and> (of_char c :: nat) \<le> 90
                   then char_of (of_char c + (32 :: nat)) else c)"

definition toLowerCase :: "string \<Rightarrow> string" where
  "toLowerCase s = map lower_char s"

text \<open>\<open>Array.prototype.join\<close>.\<close>

fun join :: "string \<Rightarrow> string list \<Rightarrow> string" where
  "join sep [] = []"
| "join sep [x] = x"
| "join sep (x # y # ys) = x @ sep @ join sep (y # ys)"

text \<open>The comparison of the default \<open>Array.prototype.sort\<close> on strings: code units, left to
  right.\<close>

fun js_less :: "string \<Rightarrow> string \<Rightarrow> bool" where
  "js_less [] [] = False"
| "js_less [] (b # bs) = True"
| "js_less (a # as) [] = False"
| "js_less (a # as) (b # bs) =
     ((of_char a :: nat) < of_char b \<or> (a = b \<and> js_less as bs))"

fun js_insert :: "string \<Rightarrow> string list \<Rightarrow> string list" where
  "js_insert x [] = [x]"
| "js_insert x (y # ys) = (if js_less y x then y # js_insert x ys else x # y # ys)"

definition js_sort :: "string list \<Rightarrow> string list" where
  "js_sort xs = foldr js_insert xs []"

text \<open>\<open>[...new Set(xs)]\<close>: the distinct members in the order of their first occurrence.\<close>

fun set_spread :: "'a list \<Rightarrow> 'a list \<Rightarrow> 'a list" where
  "set_spread seen [] = seen"
| "set_spread seen (x # xs) = (if x \<in> set seen then set_spread seen xs else set_spread (seen @ [x]) xs)"

text \<open>Exceptions: a \<open>TypeError\<close> of the platform, or an \<open>Error\<close> thrown by the repository,
  with its message.\<close>

datatype exn = TypeError string | PlainError string

text \<open>
  The state of a \<open>URL\<close> object, as far as the repository reads or writes it:
  \<open>protocol\<close> is the scheme with its colon, \<open>authority\<close> the serialized credentials, host
  and port (\<open>None\<close> for a URL without host), \<open>query\<close> and \<open>fragment\<close> are \<open>None\<close> when absent,
  \<open>searchParams\<close> is the list of the associated \<open>URLSearchParams\<close> object, and \<open>opaque\<close>
  says that the path is opaque (as in \<open>mailto:a@b\<close>).
\<close>

record URL =
  protocol :: string
  authority :: "string option"
  hostname :: string
  pathname :: string
  query :: "string option"
  searchParams :: "(string \<times> string) list"
  fragment :: "string option"
  opaque :: bool

text \<open>\<open>url.href\<close> and \<open>url.toString()\<close>: the URL serializer of the URL Standard.\<close>

definition URL_href :: "URL \<Rightarrow> string" where
  "URL_href u =
     protocol u
     @ (case authority u of
          Some a \<Rightarrow> ''//'' @ a
        | None \<Rightarrow> if \<not> opaque u \<and> prefix ''//'' (pathname u) then ''/.'' else [])
     @ pathname u
     @ (case query u of Some q \<Rightarrow> ''?'' @ q | None \<Rightarrow> [])
     @ (case fragment u of Some f \<Rightarrow> ''#'' @ f | None \<Rightarrow> [])"

text \<open>The \<open>application/x-www-form-urlencoded\<close> serializer, which rewrites the query after
  every change of the \<open>searchParams\<close> list.  A code unit that is not written as it is
  becomes the percent-encoded bytes of its UTF-8 form: one byte below 128, two from 128
  to 255.\<close>

definition hex_digit :: "nat \<Rightarrow> char" where
  "hex_digit n = ''0123456789ABCDEF'' ! (n mod 16)"

definition urlencoded_plain :: "char \<Rightarrow> bool" where
  "urlencoded_plain c =
     (let n = (of_char c :: nat) in
        (48 \<le> n \<and> n \<le> 57) \<or> (65 \<le> n \<and> n \<le> 90) \<or> (97 \<le> n \<and> n \<le> 122)
        \<or> c \<in> set ''*-._'')"

definition percent_byte :: "nat \<Rightarrow> string" where
  "percent_byte n = [CHR ''%'', hex_digit (n div 16), hex_digit (n mod 16)]"

definition urlencoded_unit :: "char \<Rightarrow> string" where
  "urlencoded_unit c =
     (let n = (of_char c :: nat)
      in if c = CHR '' '' then ''+''
         else if urlencoded_plain c then [c]
         else if n < 128 then percent_byte n
         else percent_byte (192 + n div 64) @ percent_byte (128 + n mod 64))"

definition urlencoded_serialize :: "(string \<times> string) list \<Rightarrow> string" where
  "urlencoded_serialize ps =
     join ''&'' (map (\<lambda>(n, v). concat (map urlencoded_unit n) @ ''='' @ concat (map urlencoded_unit v)) ps)"

text \<open>\<open>url.searchParams.delete(name)\<close>: removes every pair of that name, then runs the update
  steps (the query becomes the serialized list, or null when that is empty).\<close>

definition searchParams_delete :: "string \<Rightarrow> URL \<Rightarrow> URL" where
  "searchParams_delete name u =
     (let ps = filter (\<lambda>(n, v). n \<noteq> name) (searchParams u);
          q = urlencoded_serialize ps
      in u\<lparr>searchParams := ps, query := (if q = [] then None else Some q)\<rparr>)"

text \<open>
  The \<open>pathname\<close> setter does nothing on a URL with an opaque path; otherwise it parses the
  value as a path.  The model stores the value as it is, which is what the parser does
  with a value that is the tail, from a slash on, of a path the parser produced itself (the
  only values \<open>cleanSingleUrl\<close> passes), drive letters of \<open>file:\<close> URLs apart.
\<close>

definition set_pathname :: "string \<Rightarrow> URL \<Rightarrow> URL" where
  "set_pathname p u = (if opaque u then u else u\<lparr>pathname := p\<rparr>)"

text \<open>The \<open>hash\<close> setter: the empty string removes the fragment; another value is stored
  without its leading \<open>#\<close>.\<close>

definition set_hash :: "string \<Rightarrow> URL \<Rightarrow> URL" where
  "set_hash h u =
     (if h = [] then u\<lparr>fragment := None\<rparr>
      else u\<lparr>fragment := Some (if prefix ''#'' h then tl h else h)\<rparr>)"

subsection \<open>A reference parser for plain URLs\<close>

text \<open>\<open>String.prototype.split\<close> with a one-character separator.\<close>

fun split_on :: "char \<Rightarrow> string \<Rightarrow> string list" where
  "split_on c [] = [[]]"
| "split_on c (x # xs) =
     (if x = c then [] # split_on c xs
      else (case split_on c xs of [] \<Rightarrow> [[x]] | y # ys \<Rightarrow> (x # y) # ys))"

text \<open>The part before the first \<open>c\<close>, and the part after it when there is one.\<close>

definition cut_at :: "char \<Rightarrow> string \<Rightarrow> string \<times> string option" where
  "cut_at c s =
     (let b = dropWhile (\<lambda>x. x \<noteq> c) s
      in (takeWhile (\<lambda>x. x \<noteq> c) s, if b = [] then None else Some (tl b)))"

definition lower_letter :: "char \<Rightarrow> bool" where
  "lower_letter c = (97 \<le> (of_char c :: nat) \<and> (of_char c :: nat) \<le> 122)"

definition letter_or_digit :: "char \<Rightarrow> bool" where
  "letter_or_digit c =
     (let n = (of_char c :: nat) in
        (48 \<le> n \<and> n \<le> 57) \<or> (65 \<le> n \<and> n \<le> 90) \<or> (97 \<le> n \<and> n \<le> 122))"

definition plain_scheme :: "string \<Rightarrow> bool" where
  "plain_scheme s =
     (s \<noteq> [] \<and> lower_letter (hd s)
      \<and> list_all (\<lambda>c. lower_letter c \<or> (48 \<le> (of_char c :: nat) \<and> (of_char c :: nat) \<le> 57)
                         \<or> c \<in> set ''+-.'') s
      \<and> s \<noteq> ''file'')"

definition special_scheme :: "string \<Rightarrow> bool" where
  "special_scheme s = (s \<in> set [''http'', ''https'', ''ftp'', ''ws'', ''wss''])"

definition plain_host :: "string \<Rightarrow> bool" where
  "plain_host h =
     (h \<noteq> [] \<and> lower_letter (hd h) \<and> lower_letter (last h)
      \<and> lower_letter (hd (last (split_on CHR ''.'' h)))
      \<and> \<not> sublist ''..'' h \<and> \<not> sublist ''xn--'' h
      \<and> list_all (\<lambda>c. lower_letter c \<or> (48 \<le> (of_char c :: nat) \<and> (of_char c :: nat) \<le> 57)
                         \<or> c \<in> set ''-.'') h)"

definition plain_path :: "string \<Rightarrow> bool" where
  "plain_path p =
     (p = [] \<or>
      (hd p = CHR ''/''
       \<and> list_all (\<lambda>c. letter_or_digit c \<or> c \<in> set ''/-._~'') p
       \<and> list_all (\<lambda>seg. seg \<noteq> ''.'' \<and> seg \<noteq> ''..'') (split_on CHR ''/'' p)))"

definition plain_query :: "string \<Rightarrow> bool" where
  "plain_query q = list_all (\<lambda>c. letter_or_digit c \<or> c \<in> set ''=&/-._~'') q"

definition plain_fragment :: "string \<Rightarrow> bool" where
  "plain_fragment f = list_all (\<lambda>c. letter_or_digit c \<or> c \<in> set ''/-._~'') f"

text \<open>The \<open>application/x-www-form-urlencoded\<close> parser on a query without \<open>%\<close> and
  \<open>+\<close>: the non-empty pieces between \<open>&\<close>, each cut at its first \<open>=\<close>.\<close>

definition plain_pairs :: "string \<Rightarrow> (string \<times> string) list" where
  "plain_pairs q =
     map (\<lambda>piece. case cut_at CHR ''='' piece of (n, v) \<Rightarrow> (n, case v of None \<Rightarrow> [] | Some w \<Rightarrow> w))
       (filter (\<lambda>piece. piece \<noteq> []) (split_on CHR ''&'' q))"

text \<open>The path, query and fragment of a reference, cut apart.\<close>

definition cut_reference :: "string \<Rightarrow> string \<times> string option \<times> string option" where
  "cut_reference s =
     (case cut_at CHR ''#'' s of (beforeHash, f) \<Rightarrow>
        (case cut_at CHR ''?'' beforeHash of (p, q) \<Rightarrow> (p, q, f)))"

definition plain_reference :: "string \<times> string option \<times> string option \<Rightarrow> bool" where
  "plain_reference r =
     (case r of (p, q, f) \<Rightarrow>
        plain_path p
        \<and> (case q of None \<Rightarrow> True | Some q' \<Rightarrow> plain_query q')
        \<and> (case f of None \<Rightarrow> True | Some f' \<Rightarrow> plain_fragment f'))"

text \<open>
  \<open>URL_plain\<close> is an instance of \<open>new URL\<close> to run examples with.  On an input
  \<open>scheme://host/path?query#fragment\<close> whose scheme is in lower case and not \<open>file\<close>,
  whose host is made of lower-case letters, digits, \<open>-\<close> and \<open>.\<close>, begins and ends with
  a letter, has a last label that begins with a letter (so that it cannot be read as a
  number) and holds neither \<open>..\<close> nor \<open>xn--\<close>, whose path has no \<open>.\<close> or \<open>..\<close> segment, and whose path, query and fragment
  hold only letters, digits and \<open>/ - . _ ~\<close> (the query also \<open>=\<close> and \<open>&\<close>), it answers as
  the parser of the URL Standard does; so it does, given such a base, on a reference that
  begins with one slash.  A text without a colon, and a special scheme without host, are
  refused by both.  On every other input it answers \<open>None\<close>, and no example below relies
  on that answer.
\<close>

definition URL_plain_absolute :: "string \<Rightarrow> URL option" where
  "URL_plain_absolute s =
     (case cut_at CHR '':'' s of
        (scheme, None) \<Rightarrow> None
      | (scheme, Some afterColon) \<Rightarrow>
          if \<not> plain_scheme scheme \<or> \<not> prefix ''//'' afterColon then None
          else
            (let hostAndRest = drop 2 afterColon;
                 h = takeWhile (\<lambda>c. c \<notin> set ''/?#'') hostAndRest;
                 r = cut_reference (dropWhile (\<lambda>c. c \<notin> set ''/?#'') hostAndRest)
             in if \<not> plain_host h \<or> \<not> plain_reference r then None
                else (case r of (p, q, f) \<Rightarrow>
                  Some \<lparr>protocol = scheme @ '':'', authority = Some h, hostname = h,
                        pathname = (if p = [] \<and> special_scheme scheme then ''/'' else p),
                        query = q,
                        searchParams = (case q of None \<Rightarrow> [] | Some q' \<Rightarrow> plain_pairs q'),
                        fragment = f, opaque = False\<rparr>)))"

definition URL_plain :: "string \<Rightarrow> string option \<Rightarrow> URL option" where
  "URL_plain s base =
     (case URL_plain_absolute s of
        Some u \<Rightarrow> Some u
      | None \<Rightarrow>
          (case base of
             None \<Rightarrow> None
           | Some b \<Rightarrow>
               (case URL_plain_absolute b of
                  None \<Rightarrow> None
                | Some bu \<Rightarrow>
                    (let r = cut_reference s
                     in if prefix ''/'' s \<and> \<not> prefix ''//'' s \<and> plain_reference r
                        then (case r of (p, q, f) \<Rightarrow>
                          Some (bu\<lparr>pathname := p, query := q,
                                   searchParams := (case q of None \<Rightarrow> [] | Some q' \<Rightarrow> plain_pairs q'),
                                   fragment := f\<rparr>))
                        else None))))"

section \<open>SitemapCleaner\<close>

text \<open>
  The fields the constructor sets.  The repository holds two versions of the class that
  differ in the \<open>languagePrefixes\<close> table only: one with eight two-letter prefixes, one with
  the regional English prefixes.
\<close>

record cleaner =
  excludedExtensions :: "string list"
  excludedParams :: "string list"
  languagePrefixes :: "string list"

definition excludedExtensions_table :: "string list" where
  "excludedExtensions_table =
     [''.pdf'', ''.doc'', ''.docx'', ''.xls'', ''.xlsx'', ''.ppt'', ''.pptx'',
      ''.txt'', ''.rtf'', ''.odt'', ''.ods'', ''.odp'',
      ''.jpg'', ''.jpeg'', ''.png'', ''.gif'', ''.svg'', ''.webp'', ''.ico'', ''.bmp'',
      ''.mp4'', ''.avi'', ''.mov'', ''.mp3'', ''.wav'',
      ''.zip'', ''.rar'', ''.tar'', ''.gz'']"

definition excludedParams_table :: "string list" where
  "excludedParams_table =
     [''lang'', ''locale'', ''language'', ''l'',
      ''utm_source'', ''utm_medium'', ''utm_campaign'', ''utm_content'', ''utm_term'',
      ''gclid'', ''fbclid'', ''_ga'', ''_gac'']"

text \<open>The version with \<open>['/en/', '/fr/', ...]\<close>.\<close>

definition SitemapCleaner_short :: cleaner where
  "SitemapCleaner_short =
     \<lparr>excludedExtensions = excludedExtensions_table,
      excludedParams = excludedParams_table,
      languagePrefixes = [''/en/'', ''/fr/'', ''/de/'', ''/es/'', ''/it/'', ''/ja/'', ''/zh/'', ''/ko/'']\<rparr>"

text \<open>The version with the regional table, in the order of the source (\<open>/en-fr/\<close> and
  \<open>/en-il/\<close> stand twice there).\<close>

definition SitemapCleaner_regional :: cleaner where
  "SitemapCleaner_regional =
     \<lparr>excludedExtensions = excludedExtensions_table,
      excludedParams = excludedParams_table,
      languagePrefixes =
        [''/en-fr/'',
         ''/en-us/'', ''/en-gb/'', ''/en-ca/'', ''/en-au/'', ''/en-in/'',
         ''/en-at/'', ''/en-be/'', ''/en-cy/'', ''/en-cz/'', ''/en-dk/'', ''/en-ee/'', ''/en-fi/'',
         ''/en-fr/'', ''/en-de/'', ''/en-gr/'', ''/en-hu/'', ''/en-ie/'', ''/en-it/'', ''/en-lt/'',
         ''/en-lu/'', ''/en-lv/'', ''/en-mt/'', ''/en-nl/'', ''/en-no/'', ''/en-pl/'', ''/en-pt/'',
         ''/en-ro/'', ''/en-sk/'', ''/en-si/'', ''/en-es/'', ''/en-se/'', ''/en-ch/'',
         ''/en-ar/'', ''/en-br/'', ''/en-cl/'', ''/en-mx/'', ''/en-pe/'', ''/en-uy/'',
         ''/en-cn/'', ''/en-hk/'', ''/en-id/'', ''/en-il/'', ''/en-jp/'', ''/en-kz/'', ''/en-kr/'',
         ''/en-my/'', ''/en-nz/'', ''/en-ph/'', ''/en-sg/'', ''/en-tw/'', ''/en-th/'', ''/en-tr/'',
         ''/en-vn/'',
         ''/en-eg/'', ''/en-il/'', ''/en-lb/'', ''/en-ma/'', ''/en-qa/'', ''/en-sa/'', ''/en-ae/'',
         ''/en-za/'']\<rparr>"

text \<open>The loop over \<open>languagePrefixes\<close> in \<open>cleanSingleUrl\<close>: the first prefix the path starts
  with is cut, its last slash kept, and the loop ends.\<close>

fun stripLanguagePrefix :: "string list \<Rightarrow> string \<Rightarrow> string" where
  "stripLanguagePrefix [] path = path"
| "stripLanguagePrefix (p # ps) path =
     (if prefix p path then drop (length p - 1) path
      else stripLanguagePrefix ps path)"

text \<open>What \<open>cleanSingleUrl\<close> does to the parsed object, between \<open>new URL\<close> and
  \<open>toString\<close>.\<close>

definition cleanUrlObject :: "cleaner \<Rightarrow> URL \<Rightarrow> URL" where
  "cleanUrlObject this urlObj =
     (let u1 = foldl (\<lambda>u param. searchParams_delete param u) urlObj (excludedParams this);
          pathname1 = stripLanguagePrefix (languagePrefixes this) (pathname u1);
          pathname2 = (if prefix ''/'' pathname1 then pathname1 else ''/'' @ pathname1)
      in set_hash [] (set_pathname pathname2 u1))"

text \<open>
  \<open>cleanSingleUrl(url)\<close>.  \<open>newURL s None\<close> is \<open>new URL(s)\<close> and \<open>newURL s (Some b)\<close> is
  \<open>new URL(s, b)\<close>, \<open>None\<close> when the constructor throws; it is a parameter, so what is proved
  of the cleaner holds for whatever the platform's parser answers.  The result \<open>None\<close> is
  JavaScript's \<open>null\<close>.
\<close>

definition cleanSingleUrl :: "(string \<Rightarrow> string option \<Rightarrow> URL option) \<Rightarrow> cleaner \<Rightarrow> string \<Rightarrow> string option" where
  "cleanSingleUrl newURL this rawUrl =
     (if rawUrl = [] then None
      else case newURL (trim rawUrl) None of
             None \<Rightarrow> None
           | Some urlObj \<Rightarrow> Some (URL_href (cleanUrlObject this urlObj)))"

text \<open>\<open>isExcludedFile\<close> and \<open>isExcludedPath\<close> have no \<open>try\<close>: an unparseable URL throws.\<close>

definition isExcludedFile :: "(string \<Rightarrow> string option \<Rightarrow> URL option) \<Rightarrow> cleaner \<Rightarrow> string \<Rightarrow> exn + bool" where
  "isExcludedFile newURL this cleanUrl =
     (case newURL cleanUrl None of
        None \<Rightarrow> Inl (TypeError ''Invalid URL'')
      | Some u \<Rightarrow> Inr (\<exists>ext \<in> set (excludedExtensions this). suffix ext (toLowerCase (pathname u))))"

definition excludedPaths :: "string list" where
  "excludedPaths =
     [''/admin'', ''/wp-admin'', ''/api/'', ''/assets/'', ''/static/'',
      ''/downloads/'', ''/files/'', ''/uploads/'', ''/media/'',
      ''/.well-known/'', ''/robots.txt'', ''/sitemap'']"

definition isExcludedPath :: "(string \<Rightarrow> string option \<Rightarrow> URL option) \<Rightarrow> string \<Rightarrow> exn + bool" where
  "isExcludedPath newURL cleanUrl =
     (case newURL cleanUrl None of
        None \<Rightarrow> Inl (TypeError ''Invalid URL'')
      | Some u \<Rightarrow> Inr (\<exists>path \<in> set excludedPaths. prefix path (toLowerCase (pathname u))))"

text \<open>\<open>Array.prototype.filter\<close> with a callback that can throw: the first exception ends
  it.\<close>

fun filter_throwing :: "('a \<Rightarrow> exn + bool) \<Rightarrow> 'a list \<Rightarrow> exn + 'a list" where
  "filter_throwing f [] = Inr []"
| "filter_throwing f (x # xs) =
     (case f x of
        Inl e \<Rightarrow> Inl e
      | Inr b \<Rightarrow> (case filter_throwing f xs of
                   Inl e \<Rightarrow> Inl e
                 | Inr ys \<Rightarrow> Inr (if b then x # ys else ys)))"

text \<open>\<open>process(urls)\<close>.\<close>

definition process :: "(string \<Rightarrow> string option \<Rightarrow> URL option) \<Rightarrow> cleaner \<Rightarrow> string list \<Rightarrow> exn + string list" where
  "process newURL this urls =
     (let cleaned = map the (filter (\<lambda>c. c \<noteq> None) (map (cleanSingleUrl newURL this) urls))
      in case filter_throwing (\<lambda>c. map_sum id Not (isExcludedFile newURL this c)) cleaned of
           Inl e \<Rightarrow> Inl e
         | Inr noFiles \<Rightarrow>
             (case filter_throwing (\<lambda>c. map_sum id Not (isExcludedPath newURL c)) noFiles of
                Inl e \<Rightarrow> Inl e
              | Inr cleanedUrls \<Rightarrow> Inr (js_sort (set_spread [] cleanedUrls))))"

text \<open>The counts of \<open>generateReport(originalUrls, cleanedUrls)\<close>; the percentage
  \<open>reductionRate\<close> is a formatted floating-point number and is left out.\<close>

record cleaning_report =
  original :: nat
  cleaned :: nat
  removed :: int
  filesRemoved :: nat
  languageNormalized :: nat
  duplicatesRemoved :: int

text \<open>\<open>generateReport\<close> calls \<open>isExcludedFile\<close> on the original URLs, outside any \<open>try\<close>.\<close>

definition generateReport ::
    "(string \<Rightarrow> string option \<Rightarrow> URL option) \<Rightarrow> cleaner \<Rightarrow> string list \<Rightarrow> string list
      \<Rightarrow> exn + cleaning_report" where
  "generateReport newURL this originalUrls cleanedUrls =
     (case filter_throwing (isExcludedFile newURL this) originalUrls of
        Inl e \<Rightarrow> Inl e
      | Inr files \<Rightarrow>
          Inr \<lparr>original = length originalUrls,
               cleaned = length cleanedUrls,
               removed = int (length originalUrls) - int (length cleanedUrls),
               filesRemoved = length files,
               languageNormalized =
                 length (filter (\<lambda>u. \<exists>p \<in> set (languagePrefixes this). sublist p u) originalUrls),
               duplicatesRemoved =
                 int (length originalUrls)
                 - int (length (set_spread []
                     (map (\<lambda>u. case cleanSingleUrl newURL this u of
                                  None \<Rightarrow> u | Some c \<Rightarrow> if c = [] then u else c) originalUrls)))\<rparr>)"

section \<open>lib/utils.js\<close>

text \<open>\<open>resolveUrl(href, baseUrl)\<close>.\<close>

definition resolveUrl :: "(string \<Rightarrow> string option \<Rightarrow> URL option) \<Rightarrow> string \<Rightarrow> string \<Rightarrow> string option" where
  "resolveUrl newURL href baseUrl =
     (if href = [] \<or> prefix ''#'' href \<or> prefix ''javascript:'' href
         \<or> prefix ''mailto:'' href \<or> prefix ''tel:'' href
      then None
      else map_option URL_href (newURL href (Some baseUrl)))"

text \<open>\<open>isInternalUrl(url, baseUrl)\<close>, called with both arguments.\<close>

definition isInternalUrl :: "(string \<Rightarrow> string option \<Rightarrow> URL option) \<Rightarrow> string \<Rightarrow> string \<Rightarrow> bool" where
  "isInternalUrl newURL target baseUrl =
     (case newURL target (Some baseUrl) of
        None \<Rightarrow> False
      | Some urlObj \<Rightarrow>
          (case newURL baseUrl None of
             None \<Rightarrow> False
           | Some baseObj \<Rightarrow> hostname urlObj = hostname baseObj))"

text \<open>\<open>s.replace(/\s+/g, ' ')\<close>; the flag says that the character before was white
  space.\<close>

fun collapse_spaces :: "bool \<Rightarrow> string \<Rightarrow> string" where
  "collapse_spaces inRun [] = []"
| "collapse_spaces inRun (c # cs) =
     (if js_space c then (if inRun then collapse_spaces True cs else CHR '' '' # collapse_spaces True cs)
      else c # collapse_spaces False cs)"

text \<open>The loop of \<open>findLineNumber\<close> from line \<open>i + 1\<close> on.\<close>

fun findLineNumber_from :: "nat \<Rightarrow> string list \<Rightarrow> string \<Rightarrow> nat" where
  "findLineNumber_from i [] cleanElement = 0"
| "findLineNumber_from i (l # ls) cleanElement =
     (if sublist cleanElement l \<or> sublist cleanElement (collapse_spaces False l) then i + 1
      else findLineNumber_from (i + 1) ls cleanElement)"

definition findLineNumber :: "string \<Rightarrow> string \<Rightarrow> nat" where
  "findLineNumber htmlText elementHtml =
     findLineNumber_from 0 (split_on CHR 0x0A htmlText) (trim (collapse_spaces False elementHtml))"

text \<open>
  \<open>Promise.allSettled\<close>.  The promises of a batch settle in some order; \<open>order\<close> lists
  the indices as they settle.  Each outcome is stored at the index of its promise, and the
  combined promise resolves once every index has settled; \<open>None\<close> means it never does.
\<close>

datatype 'b settled = Fulfilled 'b | RejectedWith "string option"

definition Promise_allSettled :: "nat list \<Rightarrow> 'b settled list \<Rightarrow> 'b settled list option" where
  "Promise_allSettled order promises =
     (let slots = fold (\<lambda>i vs. if i < length promises then vs[i := Some (promises ! i)] else vs)
                    order (replicate (length promises) None)
      in if list_all (\<lambda>v. v \<noteq> None) slots then Some (map the slots) else None)"

text \<open>\<open>Array.prototype.slice(start, stop)\<close>, negative indices counting from the end.\<close>

definition js_slice :: "'a list \<Rightarrow> int \<Rightarrow> int \<Rightarrow> 'a list" where
  "js_slice xs start stop =
     (let len = int (length xs);
          k = (if start < 0 then max (len + start) 0 else min start len);
          fin = (if stop < 0 then max (len + stop) 0 else min stop len)
      in take (nat (fin - k)) (drop (nat k) xs))"

text \<open>One element of the array \<open>processConcurrent\<close> returns.\<close>

record ('a, 'b) entry =
  item :: 'a
  success :: bool
  result :: "'b settled"

text \<open>\<open>{item, success: result.status === 'fulfilled', result: value or reason}\<close>.\<close>

definition settled_entry :: "'a \<Rightarrow> 'b settled \<Rightarrow> ('a, 'b) entry" where
  "settled_entry it r =
     \<lparr>item = it, success = (case r of Fulfilled v \<Rightarrow> True | RejectedWith m \<Rightarrow> False), result = r\<rparr>"

text \<open>A schedule in which each of the \<open>n\<close> promises of a batch settles.\<close>

definition settles_all :: "nat list \<Rightarrow> nat \<Rightarrow> bool" where
  "settles_all order n = list_all (\<lambda>i. i \<in> set order) [0..<n]"

text \<open>
  The \<open>for\<close> loop of \<open>processConcurrent(items, processor, concurrency)\<close>, from the value
  \<open>i\<close> of its counter and the \<open>results\<close> so far.  \<open>schedule i\<close> is the order in which
  the promises of the batch that starts at \<open>i\<close> settle.  The loop need not end, so the
  result is an option: \<open>None\<close> when the function never returns.
\<close>

partial_function (option) processConcurrent_loop ::
    "(int \<Rightarrow> nat list) \<Rightarrow> 'a list \<Rightarrow> ('a \<Rightarrow> 'b settled) \<Rightarrow> int \<Rightarrow> int \<Rightarrow> ('a, 'b) entry list
      \<Rightarrow> ('a, 'b) entry list option" where
  "processConcurrent_loop schedule items processor concurrency i results =
     (if i < int (length items) then
        (let batch = js_slice items i (i + concurrency) in
           case Promise_allSettled (schedule i) (map processor batch) of
             None \<Rightarrow> None
           | Some batchResults \<Rightarrow>
               processConcurrent_loop schedule items processor concurrency (i + concurrency)
                 (results @ map (\<lambda>(it, r). settled_entry it r) (zip batch batchResults)))
      else Some results)"

declare processConcurrent_loop.simps [code]

definition processConcurrent ::
    "(int \<Rightarrow> nat list) \<Rightarrow> 'a list \<Rightarrow> ('a \<Rightarrow> 'b settled) \<Rightarrow> int \<Rightarrow> ('a, 'b) entry list option" where
  "processConcurrent schedule items processor concurrency =
     processConcurrent_loop schedule items processor concurrency 0 []"

section \<open>lib/LinkExtractor.js\<close>

text \<open>
  An element of the document \<open>cheerio.load(html)\<close> builds: its tag name, its attributes,
  \<open>$(element).text()\<close> and \<open>$.html(element)\<close>.  The HTML parser is a parameter \<open>load\<close>
  that gives the elements in document order.
\<close>

record dom_element =
  tagName :: string
  attribs :: "(string \<times> string) list"
  textContent :: string
  outerHTML :: string

record extractor =
  excludeImages :: bool

text \<open>The constructor: \<open>this.excludeImages = true\<close>, no argument.\<close>

definition LinkExtractor_new :: extractor where
  "LinkExtractor_new = \<lparr>excludeImages = True\<rparr>"

definition urlAttributes :: "(string \<times> string) list" where
  "urlAttributes =
     [(''a'', ''href''), (''link'', ''href''), (''img'', ''src''), (''script'', ''src''),
      (''iframe'', ''src''), (''source'', ''src''), (''video'', ''src''), (''audio'', ''src'')]"

definition categorizeLink :: "string \<Rightarrow> string" where
  "categorizeLink tag =
     (case map_of [(''a'', ''navigation''), (''img'', ''image''), (''script'', ''script''),
                   (''link'', ''resource''), (''iframe'', ''embed''), (''video'', ''media''),
                   (''audio'', ''media''), (''source'', ''media'')] tag of
        Some c \<Rightarrow> c | None \<Rightarrow> ''other'')"

text \<open>\<open>a || b || ''\<close> on two optional attribute values.\<close>

definition first_truthy :: "string option \<Rightarrow> string option \<Rightarrow> string" where
  "first_truthy a b =
     (case a of
        Some x \<Rightarrow> if x \<noteq> [] then x else (case b of Some y \<Rightarrow> y | None \<Rightarrow> [])
      | None \<Rightarrow> (case b of Some y \<Rightarrow> y | None \<Rightarrow> []))"

text \<open>\<open>extractSingleLink($, element, attribute, baseUrl, html)\<close>.\<close>

definition extractSingleLink ::
    "(string \<Rightarrow> string option \<Rightarrow> URL option) \<Rightarrow> dom_element \<Rightarrow> string \<Rightarrow> string \<Rightarrow> string \<Rightarrow> link option" where
  "extractSingleLink newURL e attribute baseUrl htmlText =
     (case map_of (attribs e) attribute of
        None \<Rightarrow> None
      | Some href \<Rightarrow>
          if href = [] then None
          else (case resolveUrl newURL href baseUrl of
                  None \<Rightarrow> None
                | Some absoluteUrl \<Rightarrow>
                    if absoluteUrl = [] then None
                    else Some
                      \<lparr>url = absoluteUrl,
                       originalHref = href,
                       linkText = (if tagName e = ''a'' then take 100 (trim (textContent e))
                                   else first_truthy (map_of (attribs e) ''alt'') (map_of (attribs e) ''title'')),
                       element = tagName e,
                       isInternal = isInternalUrl newURL absoluteUrl baseUrl,
                       position = \<lparr>line = findLineNumber htmlText (outerHTML e),
                                   html = take 200 (outerHTML e)
                                          @ (if length (outerHTML e) > 200 then ''...'' else [])\<rparr>,
                       foundOn = baseUrl,
                       linkType = None,
                       duplicateCount = None\<rparr>))"

text \<open>\<open>deduplicateLinks(links)\<close>: the \<open>Map\<close> keeps the first link of each URL, in insertion
  order, and counts the repeats on it.\<close>

fun deduplicateLinks_loop :: "link list \<Rightarrow> link list \<Rightarrow> link list" where
  "deduplicateLinks_loop uniqueMap [] = uniqueMap"
| "deduplicateLinks_loop uniqueMap (l # ls) =
     (if url l \<in> url ` set uniqueMap
      then deduplicateLinks_loop
             (map (\<lambda>existing.
                     if url existing = url l
                     then existing\<lparr>duplicateCount :=
                            Some ((case duplicateCount existing of
                                     None \<Rightarrow> 1 | Some n \<Rightarrow> if n = 0 then 1 else n) + 1)\<rparr>
                     else existing) uniqueMap) ls
      else deduplicateLinks_loop (uniqueMap @ [l]) ls)"

definition deduplicateLinks :: "link list \<Rightarrow> link list" where
  "deduplicateLinks links = deduplicateLinks_loop [] links"

text \<open>\<open>extractLinks(html, baseUrl)\<close>; the selectors \<open>a[href]\<close> and
  \<open>img[src], script[src], link[href]\<close> are the two filters.\<close>

definition extractLinks ::
    "extractor \<Rightarrow> (string \<Rightarrow> string option \<Rightarrow> URL option) \<Rightarrow> (string \<Rightarrow> dom_element list)
      \<Rightarrow> string \<Rightarrow> string \<Rightarrow> link list" where
  "extractLinks this newURL load htmlText baseUrl =
     (let doc = load htmlText;
          anchors = filter (\<lambda>e. tagName e = ''a'' \<and> map_of (attribs e) ''href'' \<noteq> None) doc;
          links = List.map_filter (\<lambda>e. extractSingleLink newURL e ''href'' baseUrl htmlText) anchors;
          resources =
            (if \<not> excludeImages this then
               List.map_filter
                 (\<lambda>e. map_option (\<lambda>l. l\<lparr>linkType := Some (categorizeLink (tagName e))\<rparr>)
                        (extractSingleLink newURL e
                           (case map_of urlAttributes (tagName e) of Some a \<Rightarrow> a | None \<Rightarrow> ''src'')
                           baseUrl htmlText))
                 (filter (\<lambda>e. (tagName e = ''img'' \<and> map_of (attribs e) ''src'' \<noteq> None)
                              \<or> (tagName e = ''script'' \<and> map_of (attribs e) ''src'' \<noteq> None)
                              \<or> (tagName e = ''link'' \<and> map_of (attribs e) ''href'' \<noteq> None)) doc)
             else [])
      in deduplicateLinks (links @ resources))"

section \<open>lib/LinkChecker.js\<close>

definition checked :: "link \<Rightarrow> category \<Rightarrow> nat \<Rightarrow> string option \<Rightarrow> string option \<Rightarrow>
    string option \<Rightarrow> string option \<Rightarrow> bool option \<Rightarrow> string option \<Rightarrow> checked_link" where
  "checked l s c msg ecode ctype lmod redir final =
     \<lparr>url = url l, originalHref = originalHref l, linkText = linkText l, element = element l,
      isInternal = isInternal l, position = position l, foundOn = foundOn l,
      linkType = linkType l, duplicateCount = duplicateCount l,
      status = s, statusCode = c, errorMessage = msg, errorCode = ecode,
      contentType = ctype, lastModified = lmod, redirected = redir, finalUrl = final\<rparr>"

text \<open>
  \<open>checkSingleLink(link)\<close>, lines 152-215.  The first argument is the transport, the third
  the counters before the call; the result is the returned object and the counters after.
\<close>

definition checkSingleLink :: "(string \<Rightarrow> axios_outcome) \<Rightarrow> link \<Rightarrow> stats \<Rightarrow> checked_link \<times> stats" where
  "checkSingleLink get l st =
     (case get (url l) of
        Resolved r \<Rightarrow>
          (let (s, st') =
                 (if rstatus r = 404 then (Broken, st\<lparr>errors404 := errors404 st + 1\<rparr>)
                  else if rstatus r \<ge> 400 then (Warning, st\<lparr>errorsOther := errorsOther st + 1\<rparr>)
                  else (Ok, st))
           in (checked l s (rstatus r) None None
                 (header_content_type r) (header_last_modified r)
                 (Some (responseUrl r \<noteq> Some (url l)))
                 (Some (case responseUrl r of None \<Rightarrow> url l
                        | Some u \<Rightarrow> if u = [] then url l else u)),
               st'))
      | Rejected e \<Rightarrow>
          (let (s, c, st') =
                 (if code e = Some ''ECONNABORTED'' \<or> code e = Some ''ETIMEDOUT''
                  then (Timeout, 0, st\<lparr>timeouts := timeouts st + 1\<rparr>)
                  else (case err_response e of
                          Some sc \<Rightarrow>
                            (if sc = 404 then (Broken, sc, st\<lparr>errors404 := errors404 st + 1\<rparr>)
                             else if sc \<ge> 400 then (Warning, sc, st\<lparr>errorsOther := errorsOther st + 1\<rparr>)
                             else (Error, sc, st))
                        | None \<Rightarrow> (Error, 0, st\<lparr>errorsOther := errorsOther st + 1\<rparr>)))
           in (checked l s c (Some (message e)) (code e) None None None None, st')))"

text \<open>
  The fields of a \<open>LinkChecker\<close> that its methods read.  The constructor takes no
  argument; \<open>maxConcurrent\<close> is \<open>parseInt(process.env.MAX_CONCURRENT_CHECKS) || 10\<close>, where
  the argument here is the value of \<open>parseInt\<close> (\<open>None\<close> for \<open>NaN\<close>).
\<close>

record checker =
  the_extractor :: extractor
  maxConcurrent :: int

definition LinkChecker_new :: "int option \<Rightarrow> checker" where
  "LinkChecker_new envMaxConcurrent =
     \<lparr>the_extractor = LinkExtractor_new,
      maxConcurrent = (case envMaxConcurrent of None \<Rightarrow> 10 | Some n \<Rightarrow> if n = 0 then 10 else n)\<rparr>"

definition resetStats :: stats where
  "resetStats = \<lparr>pagesScanned = 0, linksChecked = 0, errors404 = 0, errorsOther = 0, timeouts = 0\<rparr>"

text \<open>The object \<open>checkLinksInBatch\<close> builds for a rejected check.\<close>

definition errorResult :: "link \<Rightarrow> string option \<Rightarrow> checked_link" where
  "errorResult l reason =
     checked l Error 0
       (Some (case reason of None \<Rightarrow> ''Erreur inconnue''
              | Some m \<Rightarrow> if m = [] then ''Erreur inconnue'' else m))
       None None None None None"

text \<open>
  \<open>checkLinksInBatch(links)\<close>.  The processor is \<open>link => this.checkSingleLink(link)\<close>,
  an \<open>async\<close> function whose body is one \<open>try\<close>/\<open>catch\<close>, so its promise fulfils; the
  counters it bumps are added up over the links.
\<close>

definition checkLinksInBatch ::
    "checker \<Rightarrow> (string \<Rightarrow> axios_outcome) \<Rightarrow> (int \<Rightarrow> nat list) \<Rightarrow> link list \<Rightarrow> stats
      \<Rightarrow> (checked_link list \<times> stats) option" where
  "checkLinksInBatch this get schedule links st =
     (if links = [] then Some ([], st)
      else (case processConcurrent schedule links
                   (\<lambda>l. Fulfilled (fst (checkSingleLink get l st))) (maxConcurrent this) of
              None \<Rightarrow> None
            | Some results \<Rightarrow>
                Some (map (\<lambda>r. case result r of
                                  Fulfilled c \<Rightarrow> if success r then c else errorResult (item r) None
                                | RejectedWith m \<Rightarrow> errorResult (item r) m) results,
                      foldl (\<lambda>s l. snd (checkSingleLink get l s)) st links)))"

text \<open>Why a page is recorded as not accessible: the status of its answer, the message of
  the rejected request, or the exception of the HTML parser on a body that is not a
  string (the text of that message is not modelled).\<close>

datatype page_error = BadStatus nat | TransportError string | ExtractionError

record page_result =
  pageUrl :: string
  accessible :: bool
  pageStatus :: "nat option"
  pageError :: "page_error option"
  links :: "link list"
  checkedLinks :: "checked_link list"

text \<open>The filter of \<open>scanSinglePage\<close>, lines 69-74.\<close>

definition linksToCheck :: "link list \<Rightarrow> link list" where
  "linksToCheck ls =
     filter (\<lambda>l. prefix ''http'' (url l)
                 \<and> \<not> sublist ''#'' (url l)
                 \<and> \<not> prefix ''mailto:'' (originalHref l)
                 \<and> \<not> prefix ''tel:'' (originalHref l)) ls"

text \<open>\<open>scanSinglePage(pageUrl)\<close>; the per-page counters of \<open>generatePageStats\<close> are
  derived from the two lists and are not carried.  The \<open>catch\<close> receives the rejection
  of the page request and the exception of \<open>cheerio.load\<close>; the result is \<open>None\<close> when
  the checks of the links never return.\<close>

definition scanSinglePage ::
    "checker \<Rightarrow> (string \<Rightarrow> string option \<Rightarrow> URL option) \<Rightarrow> (string \<Rightarrow> dom_element list)
      \<Rightarrow> (string \<Rightarrow> axios_outcome) \<Rightarrow> (int \<Rightarrow> nat list) \<Rightarrow> string \<Rightarrow> stats
      \<Rightarrow> (page_result \<times> stats) option" where
  "scanSinglePage this newURL load get schedule page st =
     (case get page of
        Rejected e \<Rightarrow>
          Some (\<lparr>pageUrl = page, accessible = False, pageStatus = None,
                 pageError = Some (TransportError (message e)), links = [], checkedLinks = []\<rparr>, st)
      | Resolved pageResponse \<Rightarrow>
          if rstatus pageResponse \<noteq> 200
          then Some (\<lparr>pageUrl = page, accessible = False, pageStatus = Some (rstatus pageResponse),
                      pageError = Some (BadStatus (rstatus pageResponse)),
                      links = [], checkedLinks = []\<rparr>, st)
          else
            (case body pageResponse of
               None \<Rightarrow>
                 Some (\<lparr>pageUrl = page, accessible = False, pageStatus = None,
                        pageError = Some ExtractionError, links = [], checkedLinks = []\<rparr>, st)
             | Some htmlText \<Rightarrow>
                 (let found = extractLinks (the_extractor this) newURL load htmlText page
                  in case checkLinksInBatch this get schedule (linksToCheck found) st of
                       None \<Rightarrow> None
                     | Some (checkedNow, st') \<Rightarrow>
                         Some (\<lparr>pageUrl = page, accessible = True, pageStatus = Some (rstatus pageResponse),
                                pageError = None, links = found, checkedLinks = checkedNow\<rparr>,
                               st'\<lparr>pagesScanned := pagesScanned st' + 1,
                                   linksChecked := linksChecked st' + length checkedNow\<rparr>))))"

text \<open>An element of \<open>results.summary.errors404\<close>.\<close>

record entry404 =
  e_url :: string
  e_foundOn :: string
  e_linkText :: string
  e_position :: position
  e_isInternal :: bool

definition entry_of :: "checked_link \<Rightarrow> entry404" where
  "entry_of l =
     \<lparr>e_url = url l, e_foundOn = foundOn l, e_linkText = linkText l,
      e_position = position l, e_isInternal = isInternal l\<rparr>"

text \<open>The object \<open>scanWebsite\<close> returns; \<open>summary.errorsOther\<close> and \<open>summary.timeouts\<close>
  are created empty and never written.\<close>

record scan_results =
  totalPages :: nat
  pages :: "page_result list"
  totalLinks :: nat
  summary_errors404 :: "entry404 list"
  final_stats :: stats

text \<open>The \<open>forEach\<close> over the checked links of one page.\<close>

fun compile404 :: "checked_link list \<Rightarrow> scan_results \<Rightarrow> scan_results" where
  "compile404 [] results = results"
| "compile404 (l # ls) results =
     compile404 ls
       (results\<lparr>totalLinks := totalLinks results + 1,
                summary_errors404 :=
                  (if status l = Broken \<and> statusCode l = 404
                   then summary_errors404 results @ [entry_of l]
                   else summary_errors404 results)\<rparr>)"

text \<open>The \<open>for\<close> loop of \<open>scanWebsite\<close> over the pages left; \<open>schedule k\<close> is the schedule of
  the batches of page number \<open>k\<close>.\<close>

fun scanWebsite_loop ::
    "checker \<Rightarrow> (string \<Rightarrow> string option \<Rightarrow> URL option) \<Rightarrow> (string \<Rightarrow> dom_element list)
      \<Rightarrow> (string \<Rightarrow> axios_outcome) \<Rightarrow> (nat \<Rightarrow> int \<Rightarrow> nat list) \<Rightarrow> nat \<Rightarrow> string list
      \<Rightarrow> scan_results \<Rightarrow> scan_results option" where
  "scanWebsite_loop this newURL load get schedule pageIndex [] results = Some results"
| "scanWebsite_loop this newURL load get schedule pageIndex (u # us) results =
     (case scanSinglePage this newURL load get (schedule pageIndex) u (final_stats results) of
        None \<Rightarrow> None
      | Some (pageResult, st') \<Rightarrow>
          scanWebsite_loop this newURL load get schedule (pageIndex + 1) us
            (compile404 (checkedLinks pageResult)
               (results\<lparr>pages := pages results @ [pageResult], final_stats := st'\<rparr>)))"

definition scanWebsite ::
    "checker \<Rightarrow> (string \<Rightarrow> string option \<Rightarrow> URL option) \<Rightarrow> (string \<Rightarrow> dom_element list)
      \<Rightarrow> (string \<Rightarrow> axios_outcome) \<Rightarrow> (nat \<Rightarrow> int \<Rightarrow> nat list) \<Rightarrow> string list
      \<Rightarrow> scan_results option" where
  "scanWebsite this newURL load get schedule urls =
     scanWebsite_loop this newURL load get schedule 0 urls
       \<lparr>totalPages = length urls, pages = [], totalLinks = 0, summary_errors404 = [],
        final_stats = resetStats\<rparr>"

section \<open>lib/SitemapFetcher.js\<close>

text \<open>
  \<open>fetchSitemap(sitemapUrl)\<close>.  The download, the XML parser and the descent into
  sub-sitemaps are the parameter \<open>download\<close>, which gives the strings found in the
  \<open>loc\<close> entries or the exception raised; the function itself is the validation
  (lines 81-88) and the \<open>catch\<close> that wraps every exception.
\<close>

definition fetchSitemap :: "(string \<Rightarrow> exn + string list) \<Rightarrow> string \<Rightarrow> exn + string list" where
  "fetchSitemap download sitemapUrl =
     (case download sitemapUrl of
        Inl e \<Rightarrow>
          Inl (PlainError (''Impossible de r'' @ [CHR 0xE9] @ ''cup'' @ [CHR 0xE9]
                           @ ''rer le sitemap depuis '' @ sitemapUrl @ '':  $ {error.message}''))
      | Inr urls \<Rightarrow>
          Inr (map trim (filter (\<lambda>u. prefix ''http'' u) (filter (\<lambda>u. u \<noteq> []) urls))))"

section \<open>lib/SlackNotifier.js\<close>

text \<open>
  \<open>notifyErrors404(errors404, scanStats)\<close>: whether the notification was sent, and how
  many requests went to the webhook.  \<open>delivery\<close> says whether the \<open>axios.post\<close>
  resolves.
\<close>

definition notifyErrors404 :: "string option \<Rightarrow> bool \<Rightarrow> entry404 list \<Rightarrow> bool \<times> nat" where
  "notifyErrors404 webhookUrl delivery errors =
     (if webhookUrl = None \<or> webhookUrl = Some [] then (False, 0)
      else if errors = [] then (False, 0)
      else (delivery, 1))"

section \<open>api/check-links.js\<close>

record request =
  req_method :: string
  query_sitemap :: "string option"
  query_notify :: "string option"
  query_maxPages :: "int option"

record environment =
  SITEMAP_URL :: "string option"
  SLACK_WEBHOOK_URL :: "string option"
  MAX_CONCURRENT_CHECKS :: "int option"

text \<open>The object of the 200 answer.\<close>

record final_results =
  originalUrls :: nat
  cleanedUrls :: nat
  scannedUrls :: nat
  cleaningReport :: cleaning_report
  totalLinksChecked :: nat
  errors404Count :: nat
  errors404_list :: "entry404 list"
  reported_stats :: stats
  notification_enabled :: bool
  notification_sent :: bool

text \<open>What the handler answers: \<open>status(200).end()\<close>, status 200 with
  \<open>success: true\<close>, or status 500 with \<open>success: false\<close> and the exception.\<close>

datatype reply = Ended | Succeeded final_results | Failed exn

text \<open>One run of the handler: its answer, the pages \<open>scanSinglePage\<close> was called on, the
  number of calls of \<open>notifier.notifyErrors404\<close> and of requests to the webhook.\<close>

record run =
  reply :: reply
  pagesAttempted :: "string list"
  sinkCalls :: nat
  webhookPosts :: nat

definition succeeded :: "run \<Rightarrow> bool option" where
  "succeeded r = (case reply r of Ended \<Rightarrow> None | Succeeded f \<Rightarrow> Some True | Failed e \<Rightarrow> Some False)"

text \<open>The object of a 200 answer, when the run gave one.\<close>

definition final_of :: "run \<Rightarrow> final_results option" where
  "final_of r = (case reply r of Ended \<Rightarrow> None | Succeeded f \<Rightarrow> Some f | Failed e \<Rightarrow> None)"

text \<open>
  The \<open>catch\<close> of the handler.  It calls \<open>notifier.notifyTechnicalError\<close>, which
  \<open>SlackNotifier\<close> does not define; the \<open>TypeError\<close> of that call is caught and logged, so
  nothing reaches the webhook.
\<close>

definition failed :: "exn \<Rightarrow> run" where
  "failed e = \<lparr>reply = Failed e, pagesAttempted = [], sinkCalls = 0, webhookPosts = 0\<rparr>"

text \<open>\<open>a || b\<close> on optional strings, the empty string being falsy.\<close>

definition or_else :: "string option \<Rightarrow> string \<Rightarrow> string" where
  "or_else a b = (case a of None \<Rightarrow> b | Some x \<Rightarrow> if x = [] then b else x)"

text \<open>\<open>request.query.sitemap || process.env.SITEMAP_URL || 'https://www.stereolabs.com/sitemap.xml'\<close>.\<close>

definition configuredSitemap :: "environment \<Rightarrow> request \<Rightarrow> string" where
  "configuredSitemap env req =
     or_else (query_sitemap req) (or_else (SITEMAP_URL env) ''https://www.stereolabs.com/sitemap.xml'')"

text \<open>
  \<open>handler(request, response)\<close>.  \<open>query_maxPages\<close> is the value of
  \<open>parseInt(request.query.maxPages)\<close> (\<open>None\<close> when the parameter is missing, empty or not
  a number).  The result is \<open>None\<close> when the handler never answers.
\<close>

definition handler ::
    "environment \<Rightarrow> cleaner \<Rightarrow> (string \<Rightarrow> exn + string list) \<Rightarrow> (string \<Rightarrow> string option \<Rightarrow> URL option)
      \<Rightarrow> (string \<Rightarrow> dom_element list) \<Rightarrow> (string \<Rightarrow> axios_outcome) \<Rightarrow> (nat \<Rightarrow> int \<Rightarrow> nat list)
      \<Rightarrow> bool \<Rightarrow> request \<Rightarrow> run option" where
  "handler env theCleaner download newURL load get schedule delivery req =
     (if req_method req = ''OPTIONS''
      then Some \<lparr>reply = Ended, pagesAttempted = [], sinkCalls = 0, webhookPosts = 0\<rparr>
      else
        (let sitemapUrl = configuredSitemap env req;
             notifySlack = (query_notify req \<noteq> Some ''true'');
             maxPages = query_maxPages req
         in case fetchSitemap download sitemapUrl of
              Inl e \<Rightarrow> Some (failed e)
            | Inr rawUrls \<Rightarrow>
                if rawUrls = []
                then Some (failed (PlainError (''Aucune URL trouv'' @ [CHR 0xE9] @ ''e dans le sitemap'')))
                else
                  (case process newURL theCleaner rawUrls of
                     Inl e \<Rightarrow> Some (failed e)
                   | Inr cleanUrls \<Rightarrow>
                       (case generateReport newURL theCleaner rawUrls cleanUrls of
                          Inl e \<Rightarrow> Some (failed e)
                        | Inr report \<Rightarrow>
                            (let urlsToScan =
                                   (case maxPages of
                                      None \<Rightarrow> cleanUrls
                                    | Some n \<Rightarrow> if n = 0 then cleanUrls else js_slice cleanUrls 0 n)
                             in case scanWebsite (LinkChecker_new (MAX_CONCURRENT_CHECKS env))
                                       newURL load get schedule urlsToScan of
                                  None \<Rightarrow> None
                                | Some scanResults \<Rightarrow>
                                    (let errors = summary_errors404 scanResults;
                                         (sent, calls, posts) =
                                           (if notifySlack \<and> errors \<noteq> []
                                            then (case notifyErrors404 (SLACK_WEBHOOK_URL env) delivery errors of
                                                    (wasSent, n) \<Rightarrow> (wasSent, 1, n))
                                            else (False, 0, 0))
                                     in Some
                                       \<lparr>reply = Succeeded
                                          \<lparr>originalUrls = length rawUrls,
                                           cleanedUrls = length cleanUrls,
                                           scannedUrls = length urlsToScan,
                                           cleaningReport = report,
                                           totalLinksChecked = totalLinks scanResults,
                                           errors404Count = length errors,
                                           errors404_list = errors,
                                           reported_stats = final_stats scanResults,
                                           notification_enabled = notifySlack,
                                           notification_sent = sent\<rparr>,
                                        pagesAttempted = map pageUrl (pages scanResults),
                                        sinkCalls = calls,
                                        webhookPosts = posts\<rparr>))))))"

section \<open>api/cron.js\<close>

text \<open>
  \<open>generateCronAnalysis(scanResults, metadata)\<close> reads
  \<open>scanResults.summary.warnings.length\<close>.  The \<open>summary\<close> object that \<open>scanWebsite\<close>
  builds has the properties \<open>totalLinks\<close>, \<open>errors404\<close>, \<open>errorsOther\<close> and \<open>timeouts\<close>
  and no other, so \<open>summary.warnings\<close> is \<open>undefined\<close> and reading its length throws.
  The numbers of the analysis are formatted floating-point values and are not modelled.
\<close>

definition summary_warnings :: "scan_results \<Rightarrow> unit list option" where
  "summary_warnings scanResults = None"

text \<open>The exception of reading \<open>length\<close> of \<open>undefined\<close>.\<close>

definition length_of_undefined :: exn where
  "length_of_undefined =
     TypeError (''Cannot read properties of undefined (reading '' @ [CHR 0x27] @ ''length''
                @ [CHR 0x27] @ '')'')"

definition generateCronAnalysis :: "scan_results \<Rightarrow> exn + unit" where
  "generateCronAnalysis scanResults =
     (case summary_warnings scanResults of
        None \<Rightarrow> Inl length_of_undefined
      | Some w \<Rightarrow> Inr ())"

text \<open>What the cron handler answers: status 401, status 200 with \<open>success: true\<close>, or
  status 500 with \<open>success: false\<close>.\<close>

datatype cron_reply = Unauthorized | CronSucceeded | CronFailed exn

record cron_run =
  cron_reply :: cron_reply
  cron_pagesAttempted :: "string list"

text \<open>
  \<open>handler(request, response)\<close> of the cron endpoint.  \<open>cronSecret\<close> is
  \<open>process.env.CRON_SECRET\<close> and \<open>authorization\<close> the header of the request.  The
  options passed to \<open>new LinkChecker\<close> are ignored by its constructor.  After the
  analysis, a non-empty 404 list with a configured webhook calls
  \<open>notifier.notifyCronResults\<close>, which \<open>SlackNotifier\<close> does not define, and the answer
  reads \<open>summary.warnings.length\<close> once more.
\<close>

definition cron_handler ::
    "environment \<Rightarrow> string option \<Rightarrow> string option \<Rightarrow> cleaner \<Rightarrow> (string \<Rightarrow> exn + string list)
      \<Rightarrow> (string \<Rightarrow> string option \<Rightarrow> URL option) \<Rightarrow> (string \<Rightarrow> dom_element list)
      \<Rightarrow> (string \<Rightarrow> axios_outcome) \<Rightarrow> (nat \<Rightarrow> int \<Rightarrow> nat list) \<Rightarrow> cron_run option" where
  "cron_handler env cronSecret authorization theCleaner download newURL load get schedule =
     (if authorization \<noteq> Some (''Bearer '' @ (case cronSecret of None \<Rightarrow> ''undefined'' | Some t \<Rightarrow> t))
      then Some \<lparr>cron_reply = Unauthorized, cron_pagesAttempted = []\<rparr>
      else
        (case fetchSitemap download
                (or_else (SITEMAP_URL env) ''https://www.stereolabs.com/sitemap.xml'') of
           Inl e \<Rightarrow> Some \<lparr>cron_reply = CronFailed e, cron_pagesAttempted = []\<rparr>
         | Inr rawUrls \<Rightarrow>
             if rawUrls = []
             then Some \<lparr>cron_reply = CronFailed
                           (PlainError (''Aucune URL trouv'' @ [CHR 0xE9] @ ''e dans le sitemap'')),
                         cron_pagesAttempted = []\<rparr>
             else
               (case process newURL theCleaner rawUrls of
                  Inl e \<Rightarrow> Some \<lparr>cron_reply = CronFailed e, cron_pagesAttempted = []\<rparr>
                | Inr cleanUrls \<Rightarrow>
                    (case scanWebsite (LinkChecker_new (MAX_CONCURRENT_CHECKS env))
                            newURL load get schedule (js_slice cleanUrls 0 50) of
                       None \<Rightarrow> None
                     | Some scanResults \<Rightarrow>
                         (case generateCronAnalysis scanResults of
                            Inl e \<Rightarrow> Some \<lparr>cron_reply = CronFailed e,
                                              cron_pagesAttempted = map pageUrl (pages scanResults)\<rparr>
                          | Inr analysis \<Rightarrow>
                              if summary_errors404 scanResults \<noteq> []
                                 \<and> SLACK_WEBHOOK_URL env \<noteq> None \<and> SLACK_WEBHOOK_URL env \<noteq> Some []
                              then Some \<lparr>cron_reply = CronFailed
                                            (TypeError ''notifier.notifyCronResults is not a function''),
                                          cron_pagesAttempted = map pageUrl (pages scanResults)\<rparr>
                              else (case summary_warnings scanResults of
                                      None \<Rightarrow>
                                        Some \<lparr>cron_reply = CronFailed length_of_undefined,
                                               cron_pagesAttempted = map pageUrl (pages scanResults)\<rparr>
                                    | Some w \<Rightarrow>
                                        Some \<lparr>cron_reply = CronSucceeded,
                                               cron_pagesAttempted = map pageUrl (pages scanResults)\<rparr>))))))"

section \<open>Data for the examples\<close>

definition anchor_html :: "string \<Rightarrow> string \<Rightarrow> string" where
  "anchor_html href txt = ''<a href='' @ [CHR 0x22] @ href @ [CHR 0x22] @ ''>'' @ txt @ ''</a>''"

text \<open>An anchor element as the HTML parser gives it.\<close>

definition anchor :: "string \<Rightarrow> string \<Rightarrow> dom_element" where
  "anchor href txt =
     \<lparr>tagName = ''a'', attribs = [(''href'', href)], textContent = txt,
      outerHTML = anchor_html href txt\<rparr>"

text \<open>The link extracted from such an anchor on line \<open>n\<close> of the page
  \<open>https://example.com/\<close>.\<close>

definition extracted :: "nat \<Rightarrow> string \<Rightarrow> string \<Rightarrow> string \<Rightarrow> link" where
  "extracted n target href txt =
     \<lparr>url = target, originalHref = href, linkText = txt, element = ''a'', isInternal = True,
      position = \<lparr>line = n, html = anchor_html href txt\<rparr>,
      foundOn = ''https://example.com/'', linkType = None, duplicateCount = None\<rparr>"

definition sample_link :: link where
  "sample_link = extracted 1 ''https://example.com/missing'' ''/missing'' ''x''"

definition sample_home_link :: link where
  "sample_home_link = extracted 2 ''https://example.com/'' ''/'' ''home''"

definition sample_down_link :: link where
  "sample_down_link = extracted 3 ''https://example.com/down'' ''/down'' ''down''"

definition answer :: "nat \<Rightarrow> string \<Rightarrow> response" where
  "answer n content =
     \<lparr>rstatus = n, header_content_type = None, header_last_modified = None,
      responseUrl = None, body = Some content\<rparr>"

definition failure :: "string \<Rightarrow> axios_error" where
  "failure c = \<lparr>code = Some c, err_response = None, message = ''request failed''\<rparr>"

text \<open>A site \<open>https://example.com/\<close> where \<open>/missing\<close> answers 404, \<open>/down\<close> answers 500
  and every other address answers 200 with the same page; requests elsewhere fail.\<close>

definition sample_page :: string where
  "sample_page =
     join [CHR 0x0A] [anchor_html ''/missing'' ''x'', anchor_html ''/'' ''home'', anchor_html ''/down'' ''down'']"

definition sample_dom :: "string \<Rightarrow> dom_element list" where
  "sample_dom h =
     (if h = sample_page then [anchor ''/missing'' ''x'', anchor ''/'' ''home'', anchor ''/down'' ''down'']
      else [])"

definition sample_net :: "string \<Rightarrow> axios_outcome" where
  "sample_net u =
     (if u = ''https://example.com/missing'' then Resolved (answer 404 [])
      else if u = ''https://example.com/down'' then Resolved (answer 500 [])
      else if prefix ''https://example.com/'' u then Resolved (answer 200 sample_page)
      else Rejected (failure ''ERR_BAD_REQUEST''))"

text \<open>What \<open>new URL\<close> makes of \<open>https://example.com\<close> followed by a plain path.\<close>

definition example_url :: "string \<Rightarrow> URL" where
  "example_url path =
     \<lparr>protocol = ''https:'', authority = Some ''example.com'', hostname = ''example.com'',
      pathname = path, query = None, searchParams = [], fragment = None, opaque = False\<rparr>"

text \<open>Sitemaps, requests and an environment for the handler.\<close>

definition sitemap_of :: "string list \<Rightarrow> string \<Rightarrow> exn + string list" where
  "sitemap_of urls sitemapUrl = Inr urls"

definition get_request :: "string option \<Rightarrow> request" where
  "get_request notify =
     \<lparr>req_method = ''GET'', query_sitemap = None, query_notify = notify, query_maxPages = None\<rparr>"

definition sample_env :: environment where
  "sample_env =
     \<lparr>SITEMAP_URL = None, SLACK_WEBHOOK_URL = Some ''https://hooks.example.com/services/x'',
      MAX_CONCURRENT_CHECKS = None\<rparr>"

text \<open>A schedule in which up to ten checks of a batch complete in the order of their
  start, and one in which they complete in the opposite order.\<close>

definition in_order :: "nat \<Rightarrow> int \<Rightarrow> nat list" where
  "in_order pageIndex i = [0, 1, 2, 3, 4, 5, 6, 7, 8, 9]"

definition last_first :: "nat \<Rightarrow> int \<Rightarrow> nat list" where
  "last_first pageIndex i = [9, 8, 7, 6, 5, 4, 3, 2, 1, 0]"

text \<open>A page with an image, a script, a style sheet and one anchor.\<close>

definition mixed_dom :: "string \<Rightarrow> dom_element list" where
  "mixed_dom h =
     [\<lparr>tagName = ''link'', attribs = [(''rel'', ''stylesheet''), (''href'', ''/site.css'')],
       textContent = [], outerHTML = ''<link>''\<rparr>,
      \<lparr>tagName = ''img'', attribs = [(''src'', ''/logo.png''), (''alt'', ''logo'')],
       textContent = [], outerHTML = ''<img>''\<rparr>,
      anchor ''/missing'' ''x'',
      \<lparr>tagName = ''script'', attribs = [(''src'', ''/app.js'')],
       textContent = [], outerHTML = ''<script></script>''\<rparr>]"

text \<open>A page whose only anchor points to a part of the missing page, and one whose only
  anchor has a scheme that merely begins with \<open>http\<close>.\<close>

definition fragment_dom :: "string \<Rightarrow> dom_element list" where
  "fragment_dom h = [anchor ''/missing#top'' ''top'']"

definition httpx_dom :: "string \<Rightarrow> dom_element list" where
  "httpx_dom h = [anchor ''httpx://example.com/a'' ''a'']"

section \<open>Properties\<close>

subsection \<open>Classification of one link\<close>



subsection \<open>Batches keep the order of the links\<close>

lemma fold_slots:
  "length init = length ps \<Longrightarrow>
   length (fold (\<lambda>i vs. if i < length ps then vs[i := Some (ps ! i)] else vs) order init) = length ps \<and>
   (\<forall>j < length ps. fold (\<lambda>i vs. if i < length ps then vs[i := Some (ps ! i)] else vs) order init ! j
       = (if j \<in> set order then Some (ps ! j) else init ! j))"
proof (induction order arbitrary: init)
  case Nil
  then show ?case by simp
next
  case (Cons a order)
  let ?init' = "if a < length ps then init[a := Some (ps ! a)] else init"
  have len: "length ?init' = length ps" using Cons.prems by simp
  from Cons.IH[OF len] show ?case
    using Cons.prems by (auto simp: nth_list_update)
qed

lemma Promise_allSettled_all:
  assumes "settles_all order (length ps)"
  shows "Promise_allSettled order ps = Some ps"
proof -
  let ?slots = "fold (\<lambda>i vs. if i < length ps then vs[i := Some (ps ! i)] else vs) order (replicate (length ps) None)"
  have f: "length ?slots = length ps" "\<forall>j < length ps. ?slots ! j = (if j \<in> set order then Some (ps ! j) else replicate (length ps) None ! j)"
    using fold_slots[of "replicate (length ps) None" ps order] by simp_all
  have m: "\<forall>j < length ps. j \<in> set order" using assms by (simp add: settles_all_def list_all_iff)
  have eq: "?slots = map Some ps"
    by (rule nth_equalityI) (use f m in auto)
  show ?thesis
    unfolding Promise_allSettled_def Let_def eq by (simp add: list_all_iff comp_def)
qed

lemma js_slice_batch:
  assumes "0 \<le> i" "i < int (length xs)" "1 \<le> c"
  shows "js_slice xs i (i + c) = take (nat c) (drop (nat i) xs)"
  using assms by (auto simp: js_slice_def Let_def min_def)

lemma loop_returns:
  assumes c: "1 \<le> c"
    and sch: "\<forall>k. settles_all (schedule k) (length (js_slice items k (k + c)))"
  shows "0 \<le> i \<Longrightarrow>
         processConcurrent_loop schedule items proc c i res
           = Some (res @ map (\<lambda>x. settled_entry x (proc x)) (drop (nat i) items))"
proof (induction "length items - nat i" arbitrary: i res rule: less_induct)
  case less
  show ?case
  proof (cases "i < int (length items)")
    case False
    then show ?thesis using less.prems
      by (subst processConcurrent_loop.simps) simp
  next
    case True
    let ?batch = "js_slice items i (i + c)"
    have b: "?batch = take (nat c) (drop (nat i) items)"
      using js_slice_batch[OF less.prems True c] .
    have s: "Promise_allSettled (schedule i) (map proc ?batch) = Some (map proc ?batch)"
      using sch Promise_allSettled_all[of "schedule i" "map proc ?batch"] by simp
    have z: "map (\<lambda>(it, r). settled_entry it r) (zip ?batch (map proc ?batch))
               = map (\<lambda>x. settled_entry x (proc x)) ?batch"
      by (simp add: zip_map2 zip_same_conv_map comp_def)
    have m: "length items - nat (i + c) < length items - nat i"
      using True less.prems c by linarith
    have ih: "processConcurrent_loop schedule items proc c (i + c) (res @ map (\<lambda>x. settled_entry x (proc x)) ?batch)
       = Some ((res @ map (\<lambda>x. settled_entry x (proc x)) ?batch) @ map (\<lambda>x. settled_entry x (proc x)) (drop (nat (i + c)) items))"
      using less.hyps[OF m] less.prems c by simp
    have d: "drop (nat (i + c)) items = drop (nat c) (drop (nat i) items)"
      using less.prems c by (simp add: nat_add_distrib add.commute)
    have split: "take (nat c) (drop (nat i) items) @ drop (nat (i + c)) items = drop (nat i) items"
      unfolding d by (rule append_take_drop_id)
    have "processConcurrent_loop schedule items proc c i res
            = processConcurrent_loop schedule items proc c (i + c) (res @ map (\<lambda>x. settled_entry x (proc x)) ?batch)"
      by (subst processConcurrent_loop.simps) (simp add: True s z Let_def)
    also have "\<dots> = Some (res @ map (\<lambda>x. settled_entry x (proc x)) (?batch @ drop (nat (i + c)) items))"
      using ih by simp
    finally show ?thesis unfolding b split .
  qed
qed

lemma loop_diverges:
  assumes "processConcurrent_loop schedule items proc c i res = Some y"
  shows "\<not> (c \<le> 0 \<and> i < int (length items))"
proof (rule processConcurrent_loop.raw_induct
    [where P = "\<lambda>schedule items proc c i res y. \<not> (c \<le> 0 \<and> i < int (length items))", OF _ assms])
  fix f :: "(int \<Rightarrow> nat list) \<Rightarrow> 'a list \<Rightarrow> ('a \<Rightarrow> 'b settled) \<Rightarrow> int \<Rightarrow> int \<Rightarrow> ('a, 'b) entry list \<Rightarrow> ('a, 'b) entry list option"
    and schedule items proc c i res y
  assume IH: "\<And>schedule items proc c i res y.
                f schedule items proc c i res = Some y \<Longrightarrow> \<not> (c \<le> 0 \<and> i < int (length items))"
    and step: "(if i < int (length items)
                then let batch = js_slice items i (i + c)
                     in case Promise_allSettled (schedule i) (map proc batch) of
                          None \<Rightarrow> None
                        | Some batchResults \<Rightarrow>
                            f schedule items proc c (i + c)
                              (res @ map (\<lambda>(it, r). settled_entry it r) (zip batch batchResults))
                else Some res) = Some y"
  show "\<not> (c \<le> 0 \<and> i < int (length items))"
  proof
    assume a: "c \<le> 0 \<and> i < int (length items)"
    from step a have "\<exists>br. f schedule items proc c (i + c)
        (res @ map (\<lambda>(it, r). settled_entry it r) (zip (js_slice items i (i + c)) br)) = Some y"
      by (auto simp: Let_def split: option.splits)
    then obtain br where "f schedule items proc c (i + c)
        (res @ map (\<lambda>(it, r). settled_entry it r) (zip (js_slice items i (i + c)) br)) = Some y"
      by blast
    from IH[OF this] a show False by simp
  qed
qed

lemma processConcurrent_diverges:
  "concurrency \<le> 0 \<Longrightarrow> items \<noteq> [] \<Longrightarrow> processConcurrent schedule items proc concurrency = None"
  using loop_diverges[of schedule items proc concurrency 0 "[]"]
  by (cases "processConcurrent schedule items proc concurrency") (auto simp: processConcurrent_def)

lemma processConcurrent_returns:
  assumes "1 \<le> c" and "\<forall>k. settles_all (schedule k) (length (js_slice items k (k + c)))"
  shows "processConcurrent schedule items proc c = Some (map (\<lambda>x. settled_entry x (proc x)) items)"
  using loop_returns[OF assms, of 0 proc "[]"] by (simp add: processConcurrent_def)

lemma Promise_allSettled_Some:
  assumes "Promise_allSettled order ps = Some br"
  shows "br = ps"
proof -
  let ?slots = "fold (\<lambda>i vs. if i < length ps then vs[i := Some (ps ! i)] else vs) order (replicate (length ps) None)"
  have f: "length ?slots = length ps"
    "\<forall>j < length ps. ?slots ! j = (if j \<in> set order then Some (ps ! j) else replicate (length ps) None ! j)"
    using fold_slots[of "replicate (length ps) None" ps order] by simp_all
  from assms have a: "list_all (\<lambda>v. v \<noteq> None) ?slots" and b: "br = map the ?slots"
    by (auto simp: Promise_allSettled_def Let_def split: if_splits)
  have "\<forall>j < length ps. ?slots ! j = Some (ps ! j)"
  proof (intro allI impI)
    fix j assume j: "j < length ps"
    with a f(1) have "?slots ! j \<noteq> None" by (simp add: list_all_length)
    with f(2) j show "?slots ! j = Some (ps ! j)" by (auto split: if_splits)
  qed
  then have "map the ?slots = ps"
    using f(1) by (intro nth_equalityI) simp_all
  with b show ?thesis by simp
qed

lemma loop_partial:
  assumes c: "1 \<le> c"
  shows "0 \<le> i \<Longrightarrow> processConcurrent_loop schedule items proc c i res = Some y \<Longrightarrow>
         y = res @ map (\<lambda>x. settled_entry x (proc x)) (drop (nat i) items)"
proof (induction "length items - nat i" arbitrary: i res rule: less_induct)
  case less
  show ?case
  proof (cases "i < int (length items)")
    case False
    then show ?thesis using less.prems
      by (subst (asm) processConcurrent_loop.simps) simp
  next
    case True
    let ?batch = "js_slice items i (i + c)"
    have b: "?batch = take (nat c) (drop (nat i) items)"
      using js_slice_batch[OF less.prems(1) True c] .
    from less.prems(2) True obtain br where
      s: "Promise_allSettled (schedule i) (map proc ?batch) = Some br"
      and rest: "processConcurrent_loop schedule items proc c (i + c)
                   (res @ map (\<lambda>(it, r). settled_entry it r) (zip ?batch br)) = Some y"
      by (subst (asm) processConcurrent_loop.simps) (auto simp: Let_def split: option.splits)
    have br: "br = map proc ?batch" using Promise_allSettled_Some[OF s] .
    have z: "map (\<lambda>(it, r). settled_entry it r) (zip ?batch br)
               = map (\<lambda>x. settled_entry x (proc x)) ?batch"
      unfolding br by (simp add: zip_map2 zip_same_conv_map comp_def)
    have m: "length items - nat (i + c) < length items - nat i"
      using True less.prems c by linarith
    have "y = (res @ map (\<lambda>x. settled_entry x (proc x)) ?batch)
                @ map (\<lambda>x. settled_entry x (proc x)) (drop (nat (i + c)) items)"
      using less.hyps[OF m _ rest[unfolded z]] less.prems(1) c by simp
    moreover have d: "drop (nat (i + c)) items = drop (nat c) (drop (nat i) items)"
      using less.prems c by (simp add: nat_add_distrib add.commute)
    moreover have "map (\<lambda>x. settled_entry x (proc x)) (take (nat c) (drop (nat i) items))
                   @ map (\<lambda>x. settled_entry x (proc x)) (drop (nat c) (drop (nat i) items))
                   = map (\<lambda>x. settled_entry x (proc x)) (drop (nat i) items)"
      by (metis append_take_drop_id map_append)
    ultimately show ?thesis unfolding b by (simp del: drop_drop)
  qed
qed

lemma processConcurrent_partial:
  assumes "processConcurrent schedule items proc c = Some y"
  shows "y = map (\<lambda>x. settled_entry x (proc x)) items"
proof (cases "items = []")
  case True
  with assms show ?thesis
    unfolding processConcurrent_def by (subst (asm) processConcurrent_loop.simps) simp
next
  case False
  have "1 \<le> c"
    using processConcurrent_diverges[of c items schedule proc] False assms by (cases "c \<le> 0") auto
  from loop_partial[OF this, of 0 schedule items proc "[]" y] assms show ?thesis
    by (simp add: processConcurrent_def)
qed

lemma checkLinksInBatch_partial:
  assumes "checkLinksInBatch this get schedule ls st = Some (rs, st')"
  shows "rs = map (\<lambda>l. fst (checkSingleLink get l st)) ls"
proof (cases "ls = []")
  case True
  with assms show ?thesis by (simp add: checkLinksInBatch_def)
next
  case False
  with assms obtain results where
    p: "processConcurrent schedule ls (\<lambda>l. Fulfilled (fst (checkSingleLink get l st))) (maxConcurrent this) = Some results"
    and r: "rs = map (\<lambda>r. case result r of
                             Fulfilled c \<Rightarrow> if success r then c else errorResult (item r) None
                           | RejectedWith m \<Rightarrow> errorResult (item r) m) results"
    by (auto simp: checkLinksInBatch_def split: option.splits)
  show ?thesis
    unfolding r processConcurrent_partial[OF p] by (simp add: settled_entry_def comp_def)
qed

lemma js_slice_length:
  "0 \<le> c \<Longrightarrow> length (js_slice xs k (k + c)) \<le> nat c"
  by (auto simp: js_slice_def Let_def min_def max_def)

text \<open>
  C8 (amended).  For every batch size from 1 up, and whatever the order in which the
  checks of a batch complete (every schedule in which each of them does), \<open>checkLinksInBatch\<close>
  returns, its list is as long as its input, and its i-th element is the result of checking
  the i-th link.  For a batch size of 0 or below the loop of \<open>processConcurrent\<close> never
  ends on a non-empty input, so nothing is returned.
\<close>

theorem checkLinksInBatch_order:
  assumes "1 \<le> maxConcurrent this"
    and "\<forall>k. settles_all (schedule k) (length (js_slice ls k (k + maxConcurrent this)))"
  shows "\<exists>rs st'. checkLinksInBatch this get schedule ls st = Some (rs, st')
           \<and> length rs = length ls
           \<and> (\<forall>i < length ls. rs ! i = fst (checkSingleLink get (ls ! i) st))"
proof (cases "ls = []")
  case True
  then show ?thesis by (simp add: checkLinksInBatch_def)
next
  case False
  have "processConcurrent schedule ls (\<lambda>l. Fulfilled (fst (checkSingleLink get l st))) (maxConcurrent this)
          = Some (map (\<lambda>x. settled_entry x (Fulfilled (fst (checkSingleLink get x st)))) ls)"
    using processConcurrent_returns[OF assms] .
  then show ?thesis
    using False by (simp add: checkLinksInBatch_def settled_entry_def comp_def)
qed

theorem checkLinksInBatch_order_witness:
  "\<exists>rs st'. checkLinksInBatch (LinkChecker_new (Some 2)) sample_net (\<lambda>k. [1, 0])
                [sample_link, sample_home_link, sample_down_link] resetStats = Some (rs, st')
     \<and> map url rs = [''https://example.com/missing'', ''https://example.com/'', ''https://example.com/down'']
     \<and> map status rs = [Broken, Ok, Warning]"
proof -
  let ?ls = "[sample_link, sample_home_link, sample_down_link]"
  have c: "1 \<le> maxConcurrent (LinkChecker_new (Some 2))"
    by (simp add: LinkChecker_new_def)
  have two: "settles_all [1, 0] n" if "n \<le> 2" for n
    using that by (auto simp: settles_all_def list_all_iff)
  have le: "length (js_slice ?ls k (k + 2)) \<le> 2" for k
    using js_slice_length[of 2 ?ls k] by simp
  have m: "maxConcurrent (LinkChecker_new (Some 2)) = 2"
    by (simp add: LinkChecker_new_def)
  have s: "\<forall>k. settles_all ((\<lambda>k. [1, 0]) k)
                       (length (js_slice ?ls k (k + maxConcurrent (LinkChecker_new (Some 2)))))"
    unfolding m using two[OF le] by blast
  from checkLinksInBatch_order[OF c s, of sample_net resetStats]
  obtain rs st' where r: "checkLinksInBatch (LinkChecker_new (Some 2)) sample_net (\<lambda>k. [1, 0]) ?ls resetStats
                            = Some (rs, st')"
    and len: "length rs = length ?ls"
    and nth: "\<forall>i < length ?ls. rs ! i = fst (checkSingleLink sample_net (?ls ! i) resetStats)"
    by blast
  have "rs = map (\<lambda>l. fst (checkSingleLink sample_net l resetStats)) ?ls"
    by (rule nth_equalityI) (use len nth in \<open>simp_all del: nth_Cons_Suc nth_Cons_0 list.map length_Cons\<close>)
  then have u: "map url rs = [''https://example.com/missing'', ''https://example.com/'', ''https://example.com/down'']"
    and v: "map status rs = [Broken, Ok, Warning]"
    by (simp_all add: checkSingleLink_def checked_def sample_net_def sample_link_def
          sample_home_link_def sample_down_link_def extracted_def answer_def)
  show ?thesis
    by (rule exI[of _ rs], rule exI[of _ st']) (simp only: r u v simp_thms)
qed

text \<open>The claim as stated, for all batch sizes, fails at the batch size \<open>-1\<close> that
  \<open>MAX_CONCURRENT_CHECKS=-1\<close> gives: the check of one link never returns.\<close>

theorem checkLinksInBatch_negative_batch_size:
  "maxConcurrent (LinkChecker_new (Some (- 1))) = - 1
   \<and> checkLinksInBatch (LinkChecker_new (Some (- 1))) sample_net (\<lambda>k. [0]) [sample_link] resetStats = None"
  using processConcurrent_diverges[of "- 1" "[sample_link]" "\<lambda>k. [0]"
          "\<lambda>l. Fulfilled (fst (checkSingleLink sample_net l resetStats))"]
  by (simp add: checkLinksInBatch_def LinkChecker_new_def)

subsection \<open>The 404 list of a scan\<close>

lemma compile404_fields:
  "summary_errors404 (compile404 ls r)
     = summary_errors404 r @ map entry_of (filter (\<lambda>l. status l = Broken \<and> statusCode l = 404) ls)"
  "pages (compile404 ls r) = pages r"
  "final_stats (compile404 ls r) = final_stats r"
  "totalLinks (compile404 ls r) = totalLinks r + length ls"
  by (induction ls arbitrary: r) simp_all

lemma scanSinglePage_pageUrl:
  "scanSinglePage this newURL load get schedule page st = Some (pr, st') \<Longrightarrow> pageUrl pr = page"
  by (auto simp: scanSinglePage_def Let_def split: axios_outcome.splits if_splits option.splits)

lemma scanWebsite_loop_inv:
  assumes "scanWebsite_loop this newURL load get schedule k us r = Some r'"
  shows "(summary_errors404 r = map entry_of (filter (\<lambda>l. status l = Broken \<and> statusCode l = 404)
                                   (concat (map checkedLinks (pages r))))
          \<longrightarrow> summary_errors404 r' = map entry_of (filter (\<lambda>l. status l = Broken \<and> statusCode l = 404)
                                   (concat (map checkedLinks (pages r')))))
         \<and> map pageUrl (pages r') = map pageUrl (pages r) @ us"
  using assms
proof (induction us arbitrary: k r)
  case Nil
  then show ?case by simp
next
  case (Cons u us)
  from Cons.prems obtain pr st' where
    p: "scanSinglePage this newURL load get (schedule k) u (final_stats r) = Some (pr, st')"
    and rest: "scanWebsite_loop this newURL load get schedule (k + 1) us
                 (compile404 (checkedLinks pr) (r\<lparr>pages := pages r @ [pr], final_stats := st'\<rparr>)) = Some r'"
    by (auto split: option.splits)
  from Cons.IH[OF rest] scanSinglePage_pageUrl[OF p] show ?case
    by (simp add: compile404_fields)
qed

lemma settles_all_mono:
  "n \<le> m \<Longrightarrow> settles_all order m \<Longrightarrow> settles_all order n"
  by (auto simp: settles_all_def list_all_iff)

lemma checkLinksInBatch_returns:
  assumes "1 \<le> maxConcurrent this"
    and "\<forall>k. settles_all (schedule k) (nat (maxConcurrent this))"
  shows "\<exists>rs st'. checkLinksInBatch this get schedule ls st = Some (rs, st')"
proof (cases "ls = []")
  case True
  then show ?thesis by (simp add: checkLinksInBatch_def)
next
  case False
  have "settles_all (schedule k) (length (js_slice ls k (k + maxConcurrent this)))" for k
  proof (rule settles_all_mono)
    show "length (js_slice ls k (k + maxConcurrent this)) \<le> nat (maxConcurrent this)"
      using js_slice_length[of "maxConcurrent this" ls k] assms(1) by simp
    show "settles_all (schedule k) (nat (maxConcurrent this))"
      using assms(2) by simp
  qed
  then have "\<forall>k. settles_all (schedule k) (length (js_slice ls k (k + maxConcurrent this)))"
    by simp
  from processConcurrent_returns[OF assms(1) this,
      of "\<lambda>l. Fulfilled (fst (checkSingleLink get l st))"]
  show ?thesis
    using False by (simp add: checkLinksInBatch_def)
qed

lemma scanSinglePage_returns:
  assumes "1 \<le> maxConcurrent this"
    and "\<forall>k. settles_all (schedule k) (nat (maxConcurrent this))"
  shows "\<exists>pr st'. scanSinglePage this newURL load get schedule page st = Some (pr, st')"
proof (cases "get page")
  case (Rejected e)
  then show ?thesis by (simp add: scanSinglePage_def)
next
  case (Resolved r)
  show ?thesis
  proof (cases "rstatus r = 200")
    case False
    with Resolved show ?thesis by (simp add: scanSinglePage_def)
  next
    case True
    show ?thesis
    proof (cases "body r")
      case None
      with Resolved True show ?thesis by (simp add: scanSinglePage_def)
    next
      case (Some h)
      from checkLinksInBatch_returns[OF assms]
      obtain rs st1 where
        "checkLinksInBatch this get schedule
           (linksToCheck (extractLinks (the_extractor this) newURL load h page)) st = Some (rs, st1)"
        by blast
      with Resolved True Some show ?thesis by (simp add: scanSinglePage_def Let_def)
    qed
  qed
qed

lemma scanWebsite_loop_returns:
  assumes "1 \<le> maxConcurrent this"
    and "\<forall>p k. settles_all (schedule p k) (nat (maxConcurrent this))"
  shows "\<exists>r'. scanWebsite_loop this newURL load get schedule p us r = Some r'"
proof (induction us arbitrary: p r)
  case Nil
  show ?case by simp
next
  case (Cons u us)
  have "\<forall>k. settles_all (schedule p k) (nat (maxConcurrent this))"
    using assms(2) by simp
  from scanSinglePage_returns[OF assms(1) this]
  obtain pr st' where
    "scanSinglePage this newURL load get (schedule p) u (final_stats r) = Some (pr, st')"
    by blast
  with Cons.IH show ?case by simp
qed

lemma scanWebsite_returns:
  assumes "1 \<le> maxConcurrent this"
    and "\<forall>p k. settles_all (schedule p k) (nat (maxConcurrent this))"
  shows "\<exists>results. scanWebsite this newURL load get schedule urls = Some results"
  unfolding scanWebsite_def using scanWebsite_loop_returns[OF assms] by blast

lemma scanWebsite_pages:
  assumes "scanWebsite this newURL load get schedule urls = Some results"
  shows "map pageUrl (pages results) = urls"
  using scanWebsite_loop_inv[OF assms[unfolded scanWebsite_def]] by simp

text \<open>
  C2.  A scan with a batch size of at least 1, in which every check of every batch
  completes (the schedule of each batch names every position of a full batch), returns its
  report; and in every report a scan returns, the \<open>errors404\<close>
  list holds, in order, one entry for each checked link of its pages whose status is
  \<open>broken\<close> with status code 404, and nothing else; the entry carries the link's \<open>url\<close>,
  \<open>foundOn\<close>, \<open>linkText\<close>, \<open>position\<close> and \<open>isInternal\<close>.  The pages of the report are the
  URLs given, in order.
\<close>

theorem scanWebsite_errors404:
  "(1 \<le> maxConcurrent this \<and> (\<forall>p k. settles_all (schedule p k) (nat (maxConcurrent this)))
      \<longrightarrow> (\<exists>results. scanWebsite this newURL load get schedule urls = Some results))
   \<and> (\<forall>results. scanWebsite this newURL load get schedule urls = Some results
      \<longrightarrow> summary_errors404 results
             = map (\<lambda>l. \<lparr>e_url = url l, e_foundOn = foundOn l, e_linkText = linkText l,
                          e_position = position l, e_isInternal = isInternal l\<rparr>)
                 (filter (\<lambda>l. status l = Broken \<and> statusCode l = 404)
                    (concat (map checkedLinks (pages results))))
          \<and> map pageUrl (pages results) = urls)"
proof (intro conjI allI impI)
  assume "1 \<le> maxConcurrent this \<and> (\<forall>p k. settles_all (schedule p k) (nat (maxConcurrent this)))"
  then show "\<exists>results. scanWebsite this newURL load get schedule urls = Some results"
    using scanWebsite_returns by blast
next
  fix results
  assume a: "scanWebsite this newURL load get schedule urls = Some results"
  from scanWebsite_loop_inv[OF a[unfolded scanWebsite_def]]
  show "summary_errors404 results
             = map (\<lambda>l. \<lparr>e_url = url l, e_foundOn = foundOn l, e_linkText = linkText l,
                          e_position = position l, e_isInternal = isInternal l\<rparr>)
                 (filter (\<lambda>l. status l = Broken \<and> statusCode l = 404)
                    (concat (map checkedLinks (pages results))))"
    by (simp add: entry_of_def[abs_def])
  from scanWebsite_loop_inv[OF a[unfolded scanWebsite_def]]
  show "map pageUrl (pages results) = urls" by simp
qed

theorem scanWebsite_errors404_witness:
  "\<exists>results. scanWebsite (LinkChecker_new None) URL_plain sample_dom sample_net last_first
                 [''https://example.com/'', ''https://example.com/about'', ''https://example.com/down'']
               = Some results
     \<and> map pageUrl (pages results)
         = [''https://example.com/'', ''https://example.com/about'', ''https://example.com/down'']
     \<and> map accessible (pages results) = [True, True, False]
     \<and> map status (concat (map checkedLinks (pages results)))
         = [Broken, Ok, Warning, Broken, Ok, Warning]
     \<and> summary_errors404 results
         = map (\<lambda>l. \<lparr>e_url = url l, e_foundOn = foundOn l, e_linkText = linkText l,
                      e_position = position l, e_isInternal = isInternal l\<rparr>)
             (filter (\<lambda>l. status l = Broken \<and> statusCode l = 404)
                (concat (map checkedLinks (pages results))))
     \<and> summary_errors404 results
         = [\<lparr>e_url = ''https://example.com/missing'', e_foundOn = ''https://example.com/'',
             e_linkText = ''x'', e_position = \<lparr>line = 1, html = anchor_html ''/missing'' ''x''\<rparr>,
             e_isInternal = True\<rparr>,
            \<lparr>e_url = ''https://example.com/missing'', e_foundOn = ''https://example.com/about'',
             e_linkText = ''x'', e_position = \<lparr>line = 1, html = anchor_html ''/missing'' ''x''\<rparr>,
             e_isInternal = True\<rparr>]"
proof -
  let ?urls = "[''https://example.com/'', ''https://example.com/about'', ''https://example.com/down'']"
  let ?scan = "scanWebsite (LinkChecker_new None) URL_plain sample_dom sample_net last_first ?urls"
  note T = scanWebsite_errors404[of "LinkChecker_new None" last_first URL_plain sample_dom sample_net ?urls]
  have c: "1 \<le> maxConcurrent (LinkChecker_new None)"
    by (simp add: LinkChecker_new_def)
  have "settles_all [9, 8, 7, 6, 5, 4, 3, 2, 1, 0] 10" by code_simp
  then have s: "\<forall>p k. settles_all (last_first p k) (nat (maxConcurrent (LinkChecker_new None)))"
    by (simp add: last_first_def LinkChecker_new_def)
  from T c s obtain results where r: "?scan = Some results" by blast
  from T r have
    e: "summary_errors404 results
         = map (\<lambda>l. \<lparr>e_url = url l, e_foundOn = foundOn l, e_linkText = linkText l,
                      e_position = position l, e_isInternal = isInternal l\<rparr>)
             (filter (\<lambda>l. status l = Broken \<and> statusCode l = 404)
                (concat (map checkedLinks (pages results))))"
    and u: "map pageUrl (pages results) = ?urls"
    by blast+
  have "map accessible (pages (the ?scan)) = [True, True, False]" by code_simp
  then have a: "map accessible (pages results) = [True, True, False]" by (simp add: r)
  have "map status (concat (map checkedLinks (pages (the ?scan))))
          = [Broken, Ok, Warning, Broken, Ok, Warning]"
    by code_simp
  then have st: "map status (concat (map checkedLinks (pages results)))
          = [Broken, Ok, Warning, Broken, Ok, Warning]"
    by (simp add: r)
  have "summary_errors404 (the ?scan)
         = [\<lparr>e_url = ''https://example.com/missing'', e_foundOn = ''https://example.com/'',
             e_linkText = ''x'', e_position = \<lparr>line = 1, html = anchor_html ''/missing'' ''x''\<rparr>,
             e_isInternal = True\<rparr>,
            \<lparr>e_url = ''https://example.com/missing'', e_foundOn = ''https://example.com/about'',
             e_linkText = ''x'', e_position = \<lparr>line = 1, html = anchor_html ''/missing'' ''x''\<rparr>,
             e_isInternal = True\<rparr>]"
    by code_simp
  then have l: "summary_errors404 results
         = [\<lparr>e_url = ''https://example.com/missing'', e_foundOn = ''https://example.com/'',
             e_linkText = ''x'', e_position = \<lparr>line = 1, html = anchor_html ''/missing'' ''x''\<rparr>,
             e_isInternal = True\<rparr>,
            \<lparr>e_url = ''https://example.com/missing'', e_foundOn = ''https://example.com/about'',
             e_linkText = ''x'', e_position = \<lparr>line = 1, html = anchor_html ''/missing'' ''x''\<rparr>,
             e_isInternal = True\<rparr>]"
    by (simp add: r)
  show ?thesis
    by (rule exI[of _ results]) (intro conjI r u a st e l)
qed

subsection \<open>Only anchors are extracted\<close>

lemma deduplicateLinks_loop_keeps:
  assumes "\<And>l n. P (l\<lparr>duplicateCount := n\<rparr>) = P l"
  shows "(\<forall>l \<in> set acc. P l) \<Longrightarrow> (\<forall>l \<in> set ls. P l) \<Longrightarrow>
         \<forall>l \<in> set (deduplicateLinks_loop acc ls). P l"
proof (induction ls arbitrary: acc)
  case Nil
  then show ?case by simp
next
  case (Cons a ls)
  show ?case
  proof (cases "url a \<in> url ` set acc")
    case True
    let ?acc' = "map (\<lambda>existing.
                     if url existing = url a
                     then existing\<lparr>duplicateCount :=
                            Some ((case duplicateCount existing of
                                     None \<Rightarrow> 1 | Some n \<Rightarrow> if n = 0 then 1 else n) + 1)\<rparr>
                     else existing) acc"
    have "\<forall>l \<in> set ?acc'. P l" using Cons.prems(1) assms by auto
    from Cons.IH[OF this] Cons.prems(2) True show ?thesis by simp
  next
    case False
    have "\<forall>l \<in> set (acc @ [a]). P l" using Cons.prems by simp
    from Cons.IH[OF this] Cons.prems(2) False show ?thesis by simp
  qed
qed

lemma in_set_map_filter:
  "y \<in> set (List.map_filter f xs) \<longleftrightarrow> (\<exists>x \<in> set xs. f x = Some y)"
  by (induction xs) (auto simp: List.map_filter_simps split: option.splits)

lemma extractSingleLink_source:
  "extractSingleLink newURL e attribute baseUrl h = Some l \<Longrightarrow>
   element l = tagName e \<and> map_of (attribs e) attribute = Some (originalHref l)"
  by (auto simp: extractSingleLink_def split: option.splits if_splits)

text \<open>
  C10.  The extractor the constructor builds has \<open>excludeImages = true\<close>, so every link
  \<open>extractLinks\<close> returns comes from an \<open>a\<close> element of the document that has an
  \<open>href\<close> attribute, whose value is the link's \<open>originalHref\<close>: style sheets, scripts,
  frames, images and media are never extracted.
\<close>

theorem extractLinks_only_anchors:
  assumes "l \<in> set (extractLinks LinkExtractor_new newURL load h baseUrl)"
  shows "element l = ''a''
         \<and> (\<exists>e \<in> set (load h). tagName e = ''a'' \<and> map_of (attribs e) ''href'' = Some (originalHref l))"
proof -
  let ?P = "\<lambda>l. element l = ''a''
         \<and> (\<exists>e \<in> set (load h). tagName e = ''a'' \<and> map_of (attribs e) ''href'' = Some (originalHref l))"
  let ?anchors = "filter (\<lambda>e. tagName e = ''a'' \<and> map_of (attribs e) ''href'' \<noteq> None) (load h)"
  let ?links = "List.map_filter (\<lambda>e. extractSingleLink newURL e ''href'' baseUrl h) ?anchors"
  have src: "\<forall>l \<in> set ?links. ?P l"
  proof
    fix l assume "l \<in> set ?links"
    then obtain e where e: "e \<in> set ?anchors" and x: "extractSingleLink newURL e ''href'' baseUrl h = Some l"
      unfolding in_set_map_filter by blast
    from extractSingleLink_source[OF x] e show "?P l" by auto
  qed
  have "\<forall>l \<in> set (deduplicateLinks_loop [] ?links). ?P l"
    by (rule deduplicateLinks_loop_keeps[where P = ?P]) (use src in simp_all)
  moreover have "extractLinks LinkExtractor_new newURL load h baseUrl = deduplicateLinks_loop [] ?links"
    by (simp add: extractLinks_def LinkExtractor_new_def deduplicateLinks_def Let_def)
  ultimately show ?thesis using assms by simp
qed

theorem extractLinks_only_anchors_witness:
  "extractLinks LinkExtractor_new URL_plain mixed_dom [] ''https://example.com/''
     = [(extracted 0 ''https://example.com/missing'' ''/missing'' ''x'')]
   \<and> element (extracted 0 ''https://example.com/missing'' ''/missing'' ''x'') = ''a''
   \<and> map element (extractLinks \<lparr>excludeImages = False\<rparr> URL_plain mixed_dom [] ''https://example.com/'')
       = [''a'', ''link'', ''img'', ''script'']"
proof -
  have a: "extractLinks LinkExtractor_new URL_plain mixed_dom [] ''https://example.com/''
     = [(extracted 0 ''https://example.com/missing'' ''/missing'' ''x'')]"
    by code_simp
  have b: "map element (extractLinks \<lparr>excludeImages = False\<rparr> URL_plain mixed_dom [] ''https://example.com/'')
       = [''a'', ''link'', ''img'', ''script'']"
    by code_simp
  from extractLinks_only_anchors[of "extracted 0 ''https://example.com/missing'' ''/missing'' ''x''"
         URL_plain mixed_dom "[]" "''https://example.com/''"] a b
  show ?thesis by simp
qed

subsection \<open>Which links of a page are verified\<close>

text \<open>
  C6.  What the filter of \<open>scanSinglePage\<close> does.  On a page that answers 200 with a
  text, scanned with a batch size of at least 1 and checks that all complete, the scan of
  the page returns, and the verified links are, in order, the extracted links whose
  resolved URL begins with the text \<open>http\<close> and holds no \<open>#\<close> anywhere, and whose original
  reference begins neither with \<open>mailto:\<close> nor with \<open>tel:\<close>.  The comment of the filter
  says that it leaves out anchors, and \<open>resolveUrl\<close> drops only a reference that begins
  with \<open>#\<close>; the test \<open>includes('#')\<close> drops every target that carries a fragment,
  whatever page it points to.
\<close>

theorem scanSinglePage_checks_filtered:
  assumes "1 \<le> maxConcurrent this"
    and "\<forall>k. settles_all (schedule k) (nat (maxConcurrent this))"
    and "get page = Resolved r" and "rstatus r = 200" and "body r = Some h"
  shows "\<exists>pr st'. scanSinglePage this newURL load get schedule page st = Some (pr, st')
           \<and> accessible pr
           \<and> links pr = extractLinks (the_extractor this) newURL load h page
           \<and> checkedLinks pr
               = map (\<lambda>l. fst (checkSingleLink get l st))
                   (filter (\<lambda>l. prefix ''http'' (url l) \<and> \<not> sublist ''#'' (url l)
                                  \<and> \<not> prefix ''mailto:'' (originalHref l)
                                  \<and> \<not> prefix ''tel:'' (originalHref l)) (links pr))"
proof -
  let ?found = "extractLinks (the_extractor this) newURL load h page"
  from checkLinksInBatch_returns[OF assms(1,2)]
  obtain rs st1 where
    b: "checkLinksInBatch this get schedule (linksToCheck ?found) st = Some (rs, st1)"
    by blast
  have rs: "rs = map (\<lambda>l. fst (checkSingleLink get l st)) (linksToCheck ?found)"
    using checkLinksInBatch_partial[OF b] .
  have "scanSinglePage this newURL load get schedule page st
          = Some (\<lparr>pageUrl = page, accessible = True, pageStatus = Some (rstatus r),
                   pageError = None, links = ?found, checkedLinks = rs\<rparr>,
                  st1\<lparr>pagesScanned := pagesScanned st1 + 1,
                      linksChecked := linksChecked st1 + length rs\<rparr>)"
    using assms(3,4,5) b by (simp add: scanSinglePage_def Let_def)
  then show ?thesis
    using rs by (simp add: linksToCheck_def)
qed

text \<open>
  The page \<open>https://example.com/\<close> has one anchor, to \<open>/missing#top\<close>.  Its target
  \<open>https://example.com/missing\<close> answers 404.  The link is extracted, and it is not
  verified.
\<close>

theorem scanSinglePage_checks_filtered_witness:
  "sample_net ''https://example.com/missing'' = Resolved (answer 404 [])
   \<and> (\<exists>pr st'. scanSinglePage (LinkChecker_new None) URL_plain fragment_dom sample_net (in_order 0)
                   ''https://example.com/'' resetStats = Some (pr, st')
         \<and> accessible pr
         \<and> map url (links pr) = [''https://example.com/missing#top'']
         \<and> map originalHref (links pr) = [''/missing#top'']
         \<and> checkedLinks pr = [])"
proof -
  let ?scan = "scanSinglePage (LinkChecker_new None) URL_plain fragment_dom sample_net (in_order 0)
                 ''https://example.com/'' resetStats"
  have c: "1 \<le> maxConcurrent (LinkChecker_new None)"
    by (simp add: LinkChecker_new_def)
  have "settles_all [0, 1, 2, 3, 4, 5, 6, 7, 8, 9] 10" by code_simp
  then have s: "\<forall>k. settles_all (in_order 0 k) (nat (maxConcurrent (LinkChecker_new None)))"
    by (simp add: in_order_def LinkChecker_new_def)
  have g: "sample_net ''https://example.com/'' = Resolved (answer 200 sample_page)"
    by (simp add: sample_net_def)
  have ok: "rstatus (answer 200 sample_page) = 200" and h: "body (answer 200 sample_page) = Some sample_page"
    by (simp_all add: answer_def)
  have m: "sample_net ''https://example.com/missing'' = Resolved (answer 404 [])"
    by (simp add: sample_net_def)
  have e: "map url (extractLinks (the_extractor (LinkChecker_new None)) URL_plain fragment_dom sample_page
                      ''https://example.com/'')
             = [''https://example.com/missing#top'']"
    by code_simp
  have o: "map originalHref (extractLinks (the_extractor (LinkChecker_new None)) URL_plain fragment_dom
                      sample_page ''https://example.com/'')
             = [''/missing#top'']"
    by code_simp
  have f: "filter (\<lambda>l. prefix ''http'' (url l) \<and> \<not> sublist ''#'' (url l)
                        \<and> \<not> prefix ''mailto:'' (originalHref l)
                        \<and> \<not> prefix ''tel:'' (originalHref l))
             (extractLinks (the_extractor (LinkChecker_new None)) URL_plain fragment_dom sample_page
                ''https://example.com/'') = []"
    by code_simp
  from scanSinglePage_checks_filtered[of "LinkChecker_new None" "in_order 0" sample_net
         "''https://example.com/''" "answer 200 sample_page" sample_page URL_plain fragment_dom resetStats,
         OF c s g ok h]
  obtain pr st' where sc: "?scan = Some (pr, st')" and ac: "accessible pr"
    and l: "links pr = extractLinks (the_extractor (LinkChecker_new None)) URL_plain fragment_dom sample_page
                         ''https://example.com/''"
    and k: "checkedLinks pr
               = map (\<lambda>l. fst (checkSingleLink sample_net l resetStats))
                   (filter (\<lambda>l. prefix ''http'' (url l) \<and> \<not> sublist ''#'' (url l)
                                  \<and> \<not> prefix ''mailto:'' (originalHref l)
                                  \<and> \<not> prefix ''tel:'' (originalHref l)) (links pr))"
    by (elim exE conjE)
  have ck: "checkedLinks pr = []" unfolding k l f by simp
  have ul: "map url (links pr) = [''https://example.com/missing#top'']" unfolding l e ..
  have uo: "map originalHref (links pr) = [''/missing#top'']" unfolding l o ..
  show ?thesis
    by (intro conjI exI[of _ pr] exI[of _ st'] m sc ac ul uo ck)
qed

text \<open>
  The same page, scanned as a site: the report lists no 404, although the target of its
  only link answers 404.  And an anchor to \<open>httpx://example.com/a\<close>, whose scheme is
  neither \<open>http\<close> nor \<open>https\<close>, is verified, because its URL begins with the text
  \<open>http\<close>.
\<close>

theorem linksToCheck_fragment_and_scheme:
  "sample_net ''https://example.com/missing'' = Resolved (answer 404 [])
   \<and> map_option (\<lambda>results. (map (map url) (map links (pages results)),
                             map (map url) (map checkedLinks (pages results)),
                             summary_errors404 results))
       (scanWebsite (LinkChecker_new None) URL_plain fragment_dom sample_net in_order [''https://example.com/''])
     = Some ([[''https://example.com/missing#top'']], [[]], [])
   \<and> map_option (\<lambda>results. (map (map url) (map links (pages results)),
                             map (map url) (map checkedLinks (pages results))))
       (scanWebsite (LinkChecker_new None) URL_plain httpx_dom sample_net in_order [''https://example.com/''])
     = Some ([[''httpx://example.com/a'']], [[''httpx://example.com/a'']])"
  by code_simp

subsection \<open>When the notifier is called\<close>

text \<open>
  C3 (amended).  In every run of the on-demand handler that completes its scan,
  \<open>notifyErrors404\<close> is called exactly once when the 404 list is not empty and
  notifications are enabled for the request, and not at all otherwise; the webhook receives
  at most one request per call.
\<close>

theorem handler_notifies:
  assumes "handler env theCleaner download newURL load get schedule delivery req = Some r"
    and "reply r = Succeeded f"
  shows "sinkCalls r = (if notification_enabled f \<and> errors404_list f \<noteq> [] then 1 else 0)
         \<and> webhookPosts r \<le> sinkCalls r"
  using assms
  by (auto simp: handler_def Let_def notifyErrors404_def failed_def
           split: if_splits sum.splits option.splits prod.splits)

theorem handler_notifies_witness:
  "map_option (errors404_list) (final_of (the (handler sample_env SitemapCleaner_regional
       (sitemap_of [''https://example.com/'']) URL_plain sample_dom sample_net in_order True (get_request None))))
     = Some [\<lparr>e_url = ''https://example.com/missing'', e_foundOn = ''https://example.com/'',
              e_linkText = ''x'', e_position = \<lparr>line = 1, html = anchor_html ''/missing'' ''x''\<rparr>,
              e_isInternal = True\<rparr>]
   \<and> sinkCalls (the (handler sample_env SitemapCleaner_regional
       (sitemap_of [''https://example.com/'']) URL_plain sample_dom sample_net in_order True (get_request None))) = 1
   \<and> map_option (errors404_list) (final_of (the (handler sample_env SitemapCleaner_regional
       (sitemap_of [''https://example.com/down'']) URL_plain sample_dom sample_net in_order True (get_request None))))
     = Some []
   \<and> sinkCalls (the (handler sample_env SitemapCleaner_regional
       (sitemap_of [''https://example.com/down'']) URL_plain sample_dom sample_net in_order True (get_request None))) = 0"
proof -
  let ?H1 = "handler sample_env SitemapCleaner_regional
       (sitemap_of [''https://example.com/'']) URL_plain sample_dom sample_net in_order True (get_request None)"
  let ?H0 = "handler sample_env SitemapCleaner_regional
       (sitemap_of [''https://example.com/down'']) URL_plain sample_dom sample_net in_order True (get_request None)"
  have n1: "?H1 \<noteq> None" and n0: "?H0 \<noteq> None" by code_simp+
  have e1: "map_option (errors404_list) (final_of (the ?H1))
     = Some [\<lparr>e_url = ''https://example.com/missing'', e_foundOn = ''https://example.com/'',
              e_linkText = ''x'', e_position = \<lparr>line = 1, html = anchor_html ''/missing'' ''x''\<rparr>,
              e_isInternal = True\<rparr>]"
    by code_simp
  have en1: "map_option notification_enabled (final_of (the ?H1)) = Some True" by code_simp
  have e0: "map_option (errors404_list) (final_of (the ?H0)) = Some []" by code_simp
  from n1 e1 en1 obtain r1 f1 where r1: "?H1 = Some r1" and f1: "reply r1 = Succeeded f1"
      and x1: "errors404_list f1 \<noteq> []" "notification_enabled f1"
    by (auto simp: final_of_def split: reply.splits)
  from n0 e0 obtain r0 f0 where r0: "?H0 = Some r0" and f0: "reply r0 = Succeeded f0"
      and x0: "errors404_list f0 = []"
    by (auto simp: final_of_def split: reply.splits)
  have "sinkCalls (the ?H1) = 1"
    using handler_notifies[OF r1 f1] x1 by (simp add: r1)
  moreover have "sinkCalls (the ?H0) = 0"
    using handler_notifies[OF r0 f0] x0 by (simp add: r0)
  ultimately show ?thesis using e1 e0 by (intro conjI)
qed

text \<open>The claim as stated fails on a request with \<open>notify=true\<close>, for which the handler
  computes \<open>notifySlack = false\<close>: the scan finds a 404 and the notifier is not called.\<close>

theorem handler_notify_flag:
  "succeeded (the (handler sample_env SitemapCleaner_regional (sitemap_of [''https://example.com/''])
       URL_plain sample_dom sample_net in_order True (get_request (Some ''true'')))) = Some True
   \<and> map_option (map e_url) (map_option errors404_list (final_of (the (handler sample_env SitemapCleaner_regional
       (sitemap_of [''https://example.com/'']) URL_plain sample_dom sample_net in_order True
       (get_request (Some ''true''))))))
     = Some [''https://example.com/missing'']
   \<and> sinkCalls (the (handler sample_env SitemapCleaner_regional (sitemap_of [''https://example.com/''])
       URL_plain sample_dom sample_net in_order True (get_request (Some ''true'')))) = 0"
  by code_simp

subsection \<open>When a run fails\<close>

lemma scanWebsite_nothing:
  "scanWebsite this newURL load get schedule [] =
     Some \<lparr>totalPages = 0, pages = [], totalLinks = 0, summary_errors404 = [], final_stats = resetStats\<rparr>"
  by (simp add: scanWebsite_def)

lemma js_slice_Nil: "js_slice [] a b = []"
  by (simp add: js_slice_def Let_def)

lemma handler_scanned:
  assumes "req_method req \<noteq> ''OPTIONS''"
    and "fetchSitemap download (configuredSitemap env req) = Inr raw" and "raw \<noteq> []"
    and "process newURL theCleaner raw = Inr clean"
    and "generateReport newURL theCleaner raw clean = Inr rep"
    and "scanWebsite (LinkChecker_new (MAX_CONCURRENT_CHECKS env)) newURL load get schedule
           (case query_maxPages req of
              None \<Rightarrow> clean
            | Some n \<Rightarrow> if n = 0 then clean else js_slice clean 0 n) = Some scanResults"
  shows "\<exists>r. handler env theCleaner download newURL load get schedule delivery req = Some r
             \<and> succeeded r = Some True
             \<and> pagesAttempted r = map pageUrl (pages scanResults)
             \<and> map_option scannedUrls (final_of r)
                 = Some (length (case query_maxPages req of
                                   None \<Rightarrow> clean
                                 | Some n \<Rightarrow> if n = 0 then clean else js_slice clean 0 n))"
  using assms
  by (simp add: handler_def Let_def succeeded_def final_of_def split: prod.splits)

lemma handler_unscanned:
  assumes "req_method req \<noteq> ''OPTIONS''"
    and "fetchSitemap download (configuredSitemap env req) = Inr raw" and "raw \<noteq> []"
    and "process newURL theCleaner raw = Inr clean"
    and "generateReport newURL theCleaner raw clean = Inr rep"
    and "scanWebsite (LinkChecker_new (MAX_CONCURRENT_CHECKS env)) newURL load get schedule
           (case query_maxPages req of
              None \<Rightarrow> clean
            | Some n \<Rightarrow> if n = 0 then clean else js_slice clean 0 n) = None"
  shows "handler env theCleaner download newURL load get schedule delivery req = None"
  using assms by (simp add: handler_def Let_def)

lemma cron_handler_scanned:
  assumes "authorization = Some (''Bearer '' @ (case cronSecret of None \<Rightarrow> ''undefined'' | Some t \<Rightarrow> t))"
    and "fetchSitemap download (or_else (SITEMAP_URL env) ''https://www.stereolabs.com/sitemap.xml'') = Inr raw"
    and "raw \<noteq> []"
    and "process newURL theCleaner raw = Inr clean"
    and "scanWebsite (LinkChecker_new (MAX_CONCURRENT_CHECKS env)) newURL load get schedule
           (js_slice clean 0 50) = Some scanResults"
  shows "\<exists>r. cron_handler env cronSecret authorization theCleaner download newURL load get schedule = Some r
             \<and> cron_reply r \<noteq> Unauthorized
             \<and> cron_pagesAttempted r = map pageUrl (pages scanResults)"
  using assms
  by (simp add: cron_handler_def generateCronAnalysis_def summary_warnings_def)

lemma cron_handler_unscanned:
  assumes "authorization = Some (''Bearer '' @ (case cronSecret of None \<Rightarrow> ''undefined'' | Some t \<Rightarrow> t))"
    and "fetchSitemap download (or_else (SITEMAP_URL env) ''https://www.stereolabs.com/sitemap.xml'') = Inr raw"
    and "raw \<noteq> []"
    and "process newURL theCleaner raw = Inr clean"
    and "scanWebsite (LinkChecker_new (MAX_CONCURRENT_CHECKS env)) newURL load get schedule
           (js_slice clean 0 50) = None"
  shows "cron_handler env cronSecret authorization theCleaner download newURL load get schedule = None"
  using assms by (simp add: cron_handler_def)

text \<open>
  With this \<open>LinkChecker\<close> no run of the cron handler answers \<open>success: true\<close>: after
  the scan, \<open>generateCronAnalysis\<close> reads \<open>summary.warnings.length\<close> and throws.
\<close>

lemma cron_handler_never_succeeds:
  assumes "cron_handler env cronSecret authorization theCleaner download newURL load get schedule = Some r"
  shows "cron_reply r \<noteq> CronSucceeded"
  using assms
  by (auto simp: cron_handler_def generateCronAnalysis_def summary_warnings_def
           split: if_splits sum.splits option.splits)

text \<open>
  C7 (amended).  A run of the on-demand handler ends with \<open>success: false\<close>, before any
  page is attempted, when the sitemap cannot be fetched or holds no URL; every failed run
  ends before any page is attempted.  A sitemap with URLs is not a failure, whether or not
  any of them survives the cleaning: when cleaning and reporting return, every answer of
  the run is \<open>success: true\<close> with the pages to scan attempted in order (none when no URL
  survives), and the run does answer when no URL survives, or when the batch size is at
  least 1 and every check that is started completes.  An authorised run of the cron
  handler also fails before any page is attempted when the sitemap cannot be fetched or
  holds no URL; on a sitemap with URLs whose cleaning returns, it does not end before its
  pages: every answer comes after the first 50 cleaned URLs were attempted, in order, and
  the run does answer under the same conditions.
\<close>

theorem handler_abort:
  assumes "req_method req \<noteq> ''OPTIONS''"
  shows "((\<exists>e. fetchSitemap download (configuredSitemap env req) = Inl e)
            \<or> fetchSitemap download (configuredSitemap env req) = Inr []
          \<longrightarrow> (\<exists>r. handler env theCleaner download newURL load get schedule delivery req = Some r
                    \<and> succeeded r = Some False \<and> pagesAttempted r = []))
       \<and> (\<forall>raw clean rep.
             fetchSitemap download (configuredSitemap env req) = Inr raw \<and> raw \<noteq> []
             \<and> process newURL theCleaner raw = Inr clean
             \<and> generateReport newURL theCleaner raw clean = Inr rep
          \<longrightarrow> (\<forall>r. handler env theCleaner download newURL load get schedule delivery req = Some r
                  \<longrightarrow> succeeded r = Some True
                      \<and> pagesAttempted r
                          = (case query_maxPages req of
                               None \<Rightarrow> clean
                             | Some n \<Rightarrow> if n = 0 then clean else js_slice clean 0 n)
                      \<and> map_option scannedUrls (final_of r) = Some (length (pagesAttempted r)))
              \<and> (clean = []
                   \<or> (1 \<le> maxConcurrent (LinkChecker_new (MAX_CONCURRENT_CHECKS env))
                       \<and> (\<forall>p k. settles_all (schedule p k)
                                   (nat (maxConcurrent (LinkChecker_new (MAX_CONCURRENT_CHECKS env))))))
                  \<longrightarrow> (\<exists>r. handler env theCleaner download newURL load get schedule delivery req = Some r)))
       \<and> (\<forall>r. handler env theCleaner download newURL load get schedule delivery req = Some r
                 \<and> succeeded r = Some False
          \<longrightarrow> pagesAttempted r = [])
       \<and> (authorization = Some (''Bearer '' @ (case cronSecret of None \<Rightarrow> ''undefined'' | Some t \<Rightarrow> t))
            \<and> ((\<exists>e. fetchSitemap download
                       (or_else (SITEMAP_URL env) ''https://www.stereolabs.com/sitemap.xml'') = Inl e)
                 \<or> fetchSitemap download
                       (or_else (SITEMAP_URL env) ''https://www.stereolabs.com/sitemap.xml'') = Inr [])
          \<longrightarrow> (\<exists>r e. cron_handler env cronSecret authorization theCleaner download newURL load get schedule
                         = Some r
                      \<and> cron_reply r = CronFailed e \<and> cron_pagesAttempted r = []))
       \<and> (\<forall>raw clean.
             authorization = Some (''Bearer '' @ (case cronSecret of None \<Rightarrow> ''undefined'' | Some t \<Rightarrow> t))
             \<and> fetchSitemap download
                   (or_else (SITEMAP_URL env) ''https://www.stereolabs.com/sitemap.xml'') = Inr raw
             \<and> raw \<noteq> []
             \<and> process newURL theCleaner raw = Inr clean
          \<longrightarrow> (\<forall>r. cron_handler env cronSecret authorization theCleaner download newURL load get schedule
                       = Some r
                  \<longrightarrow> cron_reply r \<noteq> Unauthorized \<and> cron_pagesAttempted r = js_slice clean 0 50)
              \<and> (clean = []
                   \<or> (1 \<le> maxConcurrent (LinkChecker_new (MAX_CONCURRENT_CHECKS env))
                       \<and> (\<forall>p k. settles_all (schedule p k)
                                   (nat (maxConcurrent (LinkChecker_new (MAX_CONCURRENT_CHECKS env))))))
                  \<longrightarrow> (\<exists>r. cron_handler env cronSecret authorization theCleaner download newURL load get
                             schedule = Some r)))"
proof -
  have c1: "(\<exists>e. fetchSitemap download (configuredSitemap env req) = Inl e)
            \<or> fetchSitemap download (configuredSitemap env req) = Inr []
          \<longrightarrow> (\<exists>r. handler env theCleaner download newURL load get schedule delivery req = Some r
                    \<and> succeeded r = Some False \<and> pagesAttempted r = [])"
    using assms by (auto simp: handler_def Let_def failed_def succeeded_def)
  have c2: "\<forall>raw clean rep.
             fetchSitemap download (configuredSitemap env req) = Inr raw \<and> raw \<noteq> []
             \<and> process newURL theCleaner raw = Inr clean
             \<and> generateReport newURL theCleaner raw clean = Inr rep
          \<longrightarrow> (\<forall>r. handler env theCleaner download newURL load get schedule delivery req = Some r
                  \<longrightarrow> succeeded r = Some True
                      \<and> pagesAttempted r
                          = (case query_maxPages req of
                               None \<Rightarrow> clean
                             | Some n \<Rightarrow> if n = 0 then clean else js_slice clean 0 n)
                      \<and> map_option scannedUrls (final_of r) = Some (length (pagesAttempted r)))
              \<and> (clean = []
                   \<or> (1 \<le> maxConcurrent (LinkChecker_new (MAX_CONCURRENT_CHECKS env))
                       \<and> (\<forall>p k. settles_all (schedule p k)
                                   (nat (maxConcurrent (LinkChecker_new (MAX_CONCURRENT_CHECKS env))))))
                  \<longrightarrow> (\<exists>r. handler env theCleaner download newURL load get schedule delivery req = Some r))"
  proof (intro allI impI)
    fix raw clean :: "string list" and rep
    let ?urlsToScan = "case query_maxPages req of
                         None \<Rightarrow> clean
                       | Some n \<Rightarrow> if n = 0 then clean else js_slice clean 0 n"
    let ?scan = "scanWebsite (LinkChecker_new (MAX_CONCURRENT_CHECKS env)) newURL load get schedule ?urlsToScan"
    assume a: "fetchSitemap download (configuredSitemap env req) = Inr raw \<and> raw \<noteq> []
               \<and> process newURL theCleaner raw = Inr clean
               \<and> generateReport newURL theCleaner raw clean = Inr rep"
    then have f: "fetchSitemap download (configuredSitemap env req) = Inr raw" and n: "raw \<noteq> []"
      and p: "process newURL theCleaner raw = Inr clean"
      and g: "generateReport newURL theCleaner raw clean = Inr rep"
      by simp_all
    have only_if: "succeeded r = Some True
            \<and> pagesAttempted r = ?urlsToScan
            \<and> map_option scannedUrls (final_of r) = Some (length (pagesAttempted r))"
      if h: "handler env theCleaner download newURL load get schedule delivery req = Some r" for r
    proof (cases ?scan)
      case None
      from handler_unscanned[OF assms f n p g None] h show ?thesis by simp
    next
      case (Some scanResults)
      from handler_scanned[OF assms f n p g Some, of delivery] h
      have "succeeded r = Some True" "pagesAttempted r = map pageUrl (pages scanResults)"
        "map_option scannedUrls (final_of r) = Some (length ?urlsToScan)"
        by auto
      then show ?thesis using scanWebsite_pages[OF Some] by simp
    qed
    have answers: "\<exists>r. handler env theCleaner download newURL load get schedule delivery req = Some r"
      if t: "clean = []
              \<or> (1 \<le> maxConcurrent (LinkChecker_new (MAX_CONCURRENT_CHECKS env))
                  \<and> (\<forall>p k. settles_all (schedule p k)
                              (nat (maxConcurrent (LinkChecker_new (MAX_CONCURRENT_CHECKS env))))))"
    proof -
      have "\<exists>scanResults. ?scan = Some scanResults"
      proof (cases "clean = []")
        case True
        then have "?urlsToScan = []" by (simp add: js_slice_Nil split: option.splits)
        then show ?thesis by (simp add: scanWebsite_nothing)
      next
        case False
        with t scanWebsite_returns show ?thesis by blast
      qed
      then obtain scanResults where sc: "?scan = Some scanResults" by blast
      from handler_scanned[OF assms f n p g sc, of delivery] show ?thesis by blast
    qed
    show "(\<forall>r. handler env theCleaner download newURL load get schedule delivery req = Some r
                  \<longrightarrow> succeeded r = Some True
                      \<and> pagesAttempted r = ?urlsToScan
                      \<and> map_option scannedUrls (final_of r) = Some (length (pagesAttempted r)))
              \<and> (clean = []
                   \<or> (1 \<le> maxConcurrent (LinkChecker_new (MAX_CONCURRENT_CHECKS env))
                       \<and> (\<forall>p k. settles_all (schedule p k)
                                   (nat (maxConcurrent (LinkChecker_new (MAX_CONCURRENT_CHECKS env))))))
                  \<longrightarrow> (\<exists>r. handler env theCleaner download newURL load get schedule delivery req = Some r))"
      by (rule conjI) (intro allI impI, rule only_if, assumption, rule impI, rule answers, assumption)
  qed
  have c3: "\<forall>r. handler env theCleaner download newURL load get schedule delivery req = Some r
                 \<and> succeeded r = Some False
          \<longrightarrow> pagesAttempted r = []"
    using assms
    by (auto simp: handler_def Let_def succeeded_def failed_def
             split: if_splits sum.splits option.splits prod.splits)
  have c4: "authorization = Some (''Bearer '' @ (case cronSecret of None \<Rightarrow> ''undefined'' | Some t \<Rightarrow> t))
            \<and> ((\<exists>e. fetchSitemap download
                       (or_else (SITEMAP_URL env) ''https://www.stereolabs.com/sitemap.xml'') = Inl e)
                 \<or> fetchSitemap download
                       (or_else (SITEMAP_URL env) ''https://www.stereolabs.com/sitemap.xml'') = Inr [])
          \<longrightarrow> (\<exists>r e. cron_handler env cronSecret authorization theCleaner download newURL load get schedule
                         = Some r
                      \<and> cron_reply r = CronFailed e \<and> cron_pagesAttempted r = [])"
    by (auto simp: cron_handler_def)
  have c5: "\<forall>raw clean.
             authorization = Some (''Bearer '' @ (case cronSecret of None \<Rightarrow> ''undefined'' | Some t \<Rightarrow> t))
             \<and> fetchSitemap download
                   (or_else (SITEMAP_URL env) ''https://www.stereolabs.com/sitemap.xml'') = Inr raw
             \<and> raw \<noteq> []
             \<and> process newURL theCleaner raw = Inr clean
          \<longrightarrow> (\<forall>r. cron_handler env cronSecret authorization theCleaner download newURL load get schedule
                       = Some r
                  \<longrightarrow> cron_reply r \<noteq> Unauthorized \<and> cron_pagesAttempted r = js_slice clean 0 50)
              \<and> (clean = []
                   \<or> (1 \<le> maxConcurrent (LinkChecker_new (MAX_CONCURRENT_CHECKS env))
                       \<and> (\<forall>p k. settles_all (schedule p k)
                                   (nat (maxConcurrent (LinkChecker_new (MAX_CONCURRENT_CHECKS env))))))
                  \<longrightarrow> (\<exists>r. cron_handler env cronSecret authorization theCleaner download newURL load get
                             schedule = Some r))"
  proof (intro allI impI)
    fix raw clean :: "string list"
    let ?scan = "scanWebsite (LinkChecker_new (MAX_CONCURRENT_CHECKS env)) newURL load get schedule
                   (js_slice clean 0 50)"
    assume a: "authorization = Some (''Bearer '' @ (case cronSecret of None \<Rightarrow> ''undefined'' | Some t \<Rightarrow> t))
             \<and> fetchSitemap download
                   (or_else (SITEMAP_URL env) ''https://www.stereolabs.com/sitemap.xml'') = Inr raw
             \<and> raw \<noteq> []
             \<and> process newURL theCleaner raw = Inr clean"
    then have au: "authorization = Some (''Bearer '' @ (case cronSecret of None \<Rightarrow> ''undefined'' | Some t \<Rightarrow> t))"
      and f: "fetchSitemap download
                (or_else (SITEMAP_URL env) ''https://www.stereolabs.com/sitemap.xml'') = Inr raw"
      and n: "raw \<noteq> []"
      and p: "process newURL theCleaner raw = Inr clean"
      by simp_all
    have attempted: "cron_reply r \<noteq> Unauthorized \<and> cron_pagesAttempted r = js_slice clean 0 50"
      if h: "cron_handler env cronSecret authorization theCleaner download newURL load get schedule = Some r"
      for r
    proof (cases ?scan)
      case None
      from cron_handler_unscanned[OF au f n p None] h show ?thesis by simp
    next
      case (Some scanResults)
      from cron_handler_scanned[OF au f n p Some] h
      have "cron_reply r \<noteq> Unauthorized" "cron_pagesAttempted r = map pageUrl (pages scanResults)"
        by auto
      then show ?thesis using scanWebsite_pages[OF Some] by simp
    qed
    have answers: "\<exists>r. cron_handler env cronSecret authorization theCleaner download newURL load get
                        schedule = Some r"
      if t: "clean = []
              \<or> (1 \<le> maxConcurrent (LinkChecker_new (MAX_CONCURRENT_CHECKS env))
                  \<and> (\<forall>p k. settles_all (schedule p k)
                              (nat (maxConcurrent (LinkChecker_new (MAX_CONCURRENT_CHECKS env))))))"
    proof -
      have "\<exists>scanResults. ?scan = Some scanResults"
      proof (cases "clean = []")
        case True
        then show ?thesis by (simp add: js_slice_Nil scanWebsite_nothing)
      next
        case False
        with t scanWebsite_returns show ?thesis by blast
      qed
      then obtain scanResults where sc: "?scan = Some scanResults" by blast
      from cron_handler_scanned[OF au f n p sc] show ?thesis by blast
    qed
    show "(\<forall>r. cron_handler env cronSecret authorization theCleaner download newURL load get schedule
                       = Some r
                  \<longrightarrow> cron_reply r \<noteq> Unauthorized \<and> cron_pagesAttempted r = js_slice clean 0 50)
              \<and> (clean = []
                   \<or> (1 \<le> maxConcurrent (LinkChecker_new (MAX_CONCURRENT_CHECKS env))
                       \<and> (\<forall>p k. settles_all (schedule p k)
                                   (nat (maxConcurrent (LinkChecker_new (MAX_CONCURRENT_CHECKS env))))))
                  \<longrightarrow> (\<exists>r. cron_handler env cronSecret authorization theCleaner download newURL load get
                             schedule = Some r))"
      by (rule conjI) (intro allI impI, rule attempted, assumption, rule impI, rule answers, assumption)
  qed
  show ?thesis
    by (intro conjI c1 c2 c3 c4 c5)
qed

theorem handler_abort_witness:
  "succeeded (the (handler sample_env SitemapCleaner_regional (sitemap_of []) URL_plain sample_dom
       sample_net in_order True (get_request None))) = Some False
   \<and> pagesAttempted (the (handler sample_env SitemapCleaner_regional (sitemap_of []) URL_plain sample_dom
       sample_net in_order True (get_request None))) = []
   \<and> succeeded (the (handler sample_env SitemapCleaner_regional (sitemap_of [''https://example.com/guide.pdf''])
       URL_plain sample_dom sample_net in_order True (get_request None))) = Some True
   \<and> pagesAttempted (the (handler sample_env SitemapCleaner_regional (sitemap_of [''https://example.com/guide.pdf''])
       URL_plain sample_dom sample_net in_order True (get_request None))) = []
   \<and> succeeded (the (handler sample_env SitemapCleaner_regional
       (sitemap_of [''https://example.com/'', ''https://example.com/en-gb/about''])
       URL_plain sample_dom sample_net in_order True (get_request None))) = Some True
   \<and> pagesAttempted (the (handler sample_env SitemapCleaner_regional
       (sitemap_of [''https://example.com/'', ''https://example.com/en-gb/about''])
       URL_plain sample_dom sample_net in_order True (get_request None)))
       = [''https://example.com/'', ''https://example.com/about'']
   \<and> (\<exists>e. cron_reply (the (cron_handler sample_env (Some ''s3cret'') (Some ''Bearer s3cret'')
               SitemapCleaner_regional (sitemap_of []) URL_plain sample_dom sample_net in_order))
             = CronFailed e)
   \<and> cron_pagesAttempted (the (cron_handler sample_env (Some ''s3cret'') (Some ''Bearer s3cret'')
               SitemapCleaner_regional (sitemap_of []) URL_plain sample_dom sample_net in_order)) = []
   \<and> cron_pagesAttempted (the (cron_handler sample_env (Some ''s3cret'') (Some ''Bearer s3cret'')
               SitemapCleaner_regional
               (sitemap_of [''https://example.com/'', ''https://example.com/en-gb/about''])
               URL_plain sample_dom sample_net in_order))
       = [''https://example.com/'', ''https://example.com/about'']"
proof -
  let ?H = "\<lambda>urls. handler sample_env SitemapCleaner_regional (sitemap_of urls) URL_plain sample_dom
       sample_net in_order True (get_request None)"
  let ?C = "cron_handler sample_env (Some ''s3cret'') (Some ''Bearer s3cret'')
               SitemapCleaner_regional (sitemap_of []) URL_plain sample_dom sample_net in_order"
  let ?site = "[''https://example.com/'', ''https://example.com/en-gb/about'']"
  let ?pages = "[''https://example.com/'', ''https://example.com/about'']"
  have m: "req_method (get_request None) \<noteq> ''OPTIONS''"
    by (simp add: get_request_def)
  have q: "query_maxPages (get_request None) = None"
    by (simp add: get_request_def)
  have f0: "fetchSitemap (sitemap_of []) (configuredSitemap sample_env (get_request None)) = Inr []"
    by (simp add: fetchSitemap_def sitemap_of_def)
  have f1: "fetchSitemap (sitemap_of [''https://example.com/guide.pdf''])
              (configuredSitemap sample_env (get_request None)) = Inr [''https://example.com/guide.pdf'']"
    by code_simp
  have p1: "process URL_plain SitemapCleaner_regional [''https://example.com/guide.pdf''] = Inr []"
    by code_simp
  have g1: "generateReport URL_plain SitemapCleaner_regional [''https://example.com/guide.pdf''] []
              = Inr \<lparr>original = 1, cleaned = 0, removed = 1, filesRemoved = 1,
                     languageNormalized = 0, duplicatesRemoved = 0\<rparr>"
    by code_simp
  have f2: "fetchSitemap (sitemap_of ?site) (configuredSitemap sample_env (get_request None)) = Inr ?site"
    by code_simp
  have p2: "process URL_plain SitemapCleaner_regional ?site = Inr ?pages"
    by code_simp
  have g2: "generateReport URL_plain SitemapCleaner_regional ?site ?pages
              = Inr \<lparr>original = 2, cleaned = 2, removed = 0, filesRemoved = 0,
                     languageNormalized = 1, duplicatesRemoved = 0\<rparr>"
    by code_simp
  have c: "1 \<le> maxConcurrent (LinkChecker_new (MAX_CONCURRENT_CHECKS sample_env))"
    by (simp add: LinkChecker_new_def sample_env_def)
  have "settles_all [0, 1, 2, 3, 4, 5, 6, 7, 8, 9] 10" by code_simp
  then have s: "\<forall>p k. settles_all (in_order p k)
                         (nat (maxConcurrent (LinkChecker_new (MAX_CONCURRENT_CHECKS sample_env))))"
    by (simp add: in_order_def LinkChecker_new_def sample_env_def)
  have fc: "fetchSitemap (sitemap_of [])
              (or_else (SITEMAP_URL sample_env) ''https://www.stereolabs.com/sitemap.xml'') = Inr []"
    by (simp add: fetchSitemap_def sitemap_of_def)
  have au: "Some ''Bearer s3cret''
              = Some (''Bearer '' @ (case Some ''s3cret'' of None \<Rightarrow> ''undefined'' | Some t \<Rightarrow> t))"
    by simp
  note T0 = handler_abort[OF m, of "sitemap_of []" sample_env SitemapCleaner_regional URL_plain
              sample_dom sample_net in_order True "Some ''Bearer s3cret''" "Some ''s3cret''"]
  note T1 = handler_abort[OF m, of "sitemap_of [''https://example.com/guide.pdf'']" sample_env
              SitemapCleaner_regional URL_plain sample_dom sample_net in_order True]
  note T2 = handler_abort[OF m, of "sitemap_of ?site" sample_env
              SitemapCleaner_regional URL_plain sample_dom sample_net in_order True
              "Some ''Bearer s3cret''" "Some ''s3cret''"]
  let ?C2 = "cron_handler sample_env (Some ''s3cret'') (Some ''Bearer s3cret'')
               SitemapCleaner_regional (sitemap_of ?site) URL_plain sample_dom sample_net in_order"
  have fc2: "fetchSitemap (sitemap_of ?site)
               (or_else (SITEMAP_URL sample_env) ''https://www.stereolabs.com/sitemap.xml'') = Inr ?site"
    by code_simp
  have sl: "js_slice ?pages 0 50 = ?pages"
    by code_simp
  from T0[THEN conjunct1, rule_format, OF disjI2[OF f0]]
  obtain r0 where r0: "?H [] = Some r0" and s0: "succeeded r0 = Some False" and a0: "pagesAttempted r0 = []"
    by (elim exE conjE)
  from T0[THEN conjunct2, THEN conjunct2, THEN conjunct2, THEN conjunct1, rule_format,
          OF conjI[OF au disjI2[OF fc]]]
  obtain rc e where rc: "?C = Some rc" and sc: "cron_reply rc = CronFailed e"
    and ac: "cron_pagesAttempted rc = []"
    by (elim exE conjE)
  have n1: "[''https://example.com/guide.pdf''] \<noteq> []" and n2: "?site \<noteq> []"
    by simp_all
  note B1 = T1[THEN conjunct2, THEN conjunct1, rule_format, OF conjI[OF f1 conjI[OF n1 conjI[OF p1 g1]]]]
  note B2 = T2[THEN conjunct2, THEN conjunct1, rule_format, OF conjI[OF f2 conjI[OF n2 conjI[OF p2 g2]]]]
  from B1[THEN conjunct2, rule_format, OF disjI1[OF refl]]
  obtain r1 where r1: "?H [''https://example.com/guide.pdf''] = Some r1" by (elim exE)
  from B1[THEN conjunct1, rule_format, OF r1]
  have s1: "succeeded r1 = Some True" and a1: "pagesAttempted r1 = []"
    by (simp_all add: q)
  from B2[THEN conjunct2, rule_format, OF disjI2[OF conjI[OF c s]]]
  obtain r2 where r2: "?H ?site = Some r2" by (elim exE)
  from B2[THEN conjunct1, rule_format, OF r2]
  have s2: "succeeded r2 = Some True" and a2: "pagesAttempted r2 = ?pages"
    by (simp_all add: q)
  note B5 = T2[THEN conjunct2, THEN conjunct2, THEN conjunct2, THEN conjunct2, rule_format,
                OF conjI[OF au conjI[OF fc2 conjI[OF n2 p2]]]]
  from B5[THEN conjunct2, rule_format, OF disjI2[OF conjI[OF c s]]]
  obtain r5 where r5: "?C2 = Some r5" by (elim exE)
  from B5[THEN conjunct1, rule_format, OF r5]
  have a5: "cron_pagesAttempted r5 = ?pages"
    by (simp add: sl)
  have e: "\<exists>e. cron_reply (the ?C) = CronFailed e"
    unfolding rc option.sel using sc by (rule exI)
  show ?thesis
    unfolding r0 r1 r2 rc r5 option.sel
    by (intro conjI s0 a0 s1 a1 s2 a2 e[unfolded rc option.sel] ac a5)
qed

text \<open>The claim as stated fails on a sitemap whose only URL is a PDF: the cleaned set is
  empty, and the run completes successfully with zero pages.\<close>

theorem handler_empty_cleaned_set:
  "map_option originalUrls (final_of (the (handler sample_env SitemapCleaner_regional
       (sitemap_of [''https://example.com/guide.pdf'']) URL_plain sample_dom sample_net in_order True
       (get_request None)))) = Some 1
   \<and> map_option cleanedUrls (final_of (the (handler sample_env SitemapCleaner_regional
       (sitemap_of [''https://example.com/guide.pdf'']) URL_plain sample_dom sample_net in_order True
       (get_request None)))) = Some 0
   \<and> succeeded (the (handler sample_env SitemapCleaner_regional
       (sitemap_of [''https://example.com/guide.pdf'']) URL_plain sample_dom sample_net in_order True
       (get_request None))) = Some True
   \<and> pagesAttempted (the (handler sample_env SitemapCleaner_regional
       (sitemap_of [''https://example.com/guide.pdf'']) URL_plain sample_dom sample_net in_order True
       (get_request None))) = []"
  by code_simp

subsection \<open>The schemes of the cleaned URLs\<close>

lemma set_js_insert: "set (js_insert x xs) = insert x (set xs)"
  by (induction xs) auto

lemma set_js_sort: "set (js_sort xs) = set xs"
  by (induction xs) (simp_all add: js_sort_def set_js_insert)

lemma set_set_spread: "set (set_spread seen xs) = set seen \<union> set xs"
  by (induction xs arbitrary: seen) auto

lemma filter_throwing_subset:
  "filter_throwing f xs = Inr ys \<Longrightarrow> set ys \<subseteq> set xs"
  by (induction xs arbitrary: ys) (auto split: sum.splits if_splits)

lemma foldl_delete_protocol:
  "protocol (foldl (\<lambda>u param. searchParams_delete param u) obj ps) = protocol obj"
  by (induction ps arbitrary: obj) (simp_all add: searchParams_delete_def Let_def)

lemma cleanUrlObject_protocol: "protocol (cleanUrlObject this obj) = protocol obj"
  by (simp add: cleanUrlObject_def Let_def set_hash_def set_pathname_def foldl_delete_protocol)

lemma URL_href_protocol: "prefix (protocol x) (URL_href x)"
  by (simp add: URL_href_def)

lemma cleanSingleUrl_Some:
  "cleanSingleUrl newURL this u = Some s \<Longrightarrow>
   \<exists>obj. newURL (trim u) None = Some obj \<and> s = URL_href (cleanUrlObject this obj)"
  by (auto simp: cleanSingleUrl_def split: if_splits option.splits)

text \<open>
  C9 (amended).  \<open>process\<close> keeps the scheme of every URL it keeps and checks none: each
  member of its result is what \<open>cleanSingleUrl\<close> gives for one of the inputs, the
  serialization of the cleaned URL object of that input, and begins with the protocol the
  URL parser gave for that input.  So the members all have the scheme \<open>http\<close> or
  \<open>https\<close> when every input that parses has.
\<close>

theorem process_keeps_scheme:
  assumes "process newURL this urls = Inr outs" and "out \<in> set outs"
  shows "(\<exists>u \<in> set urls. \<exists>obj. newURL (trim u) None = Some obj
              \<and> cleanSingleUrl newURL this u = Some out
              \<and> out = URL_href (cleanUrlObject this obj)
              \<and> prefix (protocol obj) out)
         \<and> ((\<forall>u \<in> set urls. \<forall>obj. newURL (trim u) None = Some obj
                 \<longrightarrow> protocol obj = ''http:'' \<or> protocol obj = ''https:'')
             \<longrightarrow> prefix ''http:'' out \<or> prefix ''https:'' out)"
proof -
  let ?cleaned = "map the (filter (\<lambda>c. c \<noteq> None) (map (cleanSingleUrl newURL this) urls))"
  from assms(1) obtain noFiles kept where
    a: "filter_throwing (\<lambda>c. map_sum id Not (isExcludedFile newURL this c)) ?cleaned = Inr noFiles"
    and b: "filter_throwing (\<lambda>c. map_sum id Not (isExcludedPath newURL c)) noFiles = Inr kept"
    and c: "outs = js_sort (set_spread [] kept)"
    by (auto simp: process_def Let_def split: sum.splits)
  from assms(2) c have "out \<in> set kept" by (simp add: set_js_sort set_set_spread)
  with filter_throwing_subset[OF a] filter_throwing_subset[OF b] have "out \<in> set ?cleaned" by blast
  then obtain u where u: "u \<in> set urls" and s: "cleanSingleUrl newURL this u = Some out"
    by auto
  from cleanSingleUrl_Some[OF s] obtain obj where
    o: "newURL (trim u) None = Some obj" and h: "out = URL_href (cleanUrlObject this obj)"
    by blast
  have p: "prefix (protocol obj) out"
    unfolding h using URL_href_protocol[of "cleanUrlObject this obj"] by (simp add: cleanUrlObject_protocol)
  show ?thesis
  proof (intro conjI impI)
    show "\<exists>u \<in> set urls. \<exists>obj. newURL (trim u) None = Some obj
              \<and> cleanSingleUrl newURL this u = Some out
              \<and> out = URL_href (cleanUrlObject this obj)
              \<and> prefix (protocol obj) out"
      using u o s h p by blast
  next
    assume "\<forall>u \<in> set urls. \<forall>obj. newURL (trim u) None = Some obj
                 \<longrightarrow> protocol obj = ''http:'' \<or> protocol obj = ''https:''"
    with u o have "protocol obj = ''http:'' \<or> protocol obj = ''https:''" by blast
    with p show "prefix ''http:'' out \<or> prefix ''https:'' out" by auto
  qed
qed

theorem process_keeps_scheme_witness:
  "process URL_plain SitemapCleaner_regional [''https://example.com/en-gb/a'', ''not a url'']
     = Inr [''https://example.com/a'']
   \<and> cleanSingleUrl URL_plain SitemapCleaner_regional ''https://example.com/en-gb/a''
       = Some ''https://example.com/a''
   \<and> prefix ''https:'' ''https://example.com/a''"
proof -
  have p: "process URL_plain SitemapCleaner_regional [''https://example.com/en-gb/a'', ''not a url'']
             = Inr [''https://example.com/a'']"
    by code_simp
  have c: "cleanSingleUrl URL_plain SitemapCleaner_regional ''https://example.com/en-gb/a''
             = Some ''https://example.com/a''"
    by code_simp
  have "URL_plain (trim u) None = Some obj \<longrightarrow> protocol obj = ''http:'' \<or> protocol obj = ''https:''"
    if "u \<in> set [''https://example.com/en-gb/a'', ''not a url'']" for u obj
  proof -
    have "URL_plain (trim ''https://example.com/en-gb/a'') None = Some (example_url ''/en-gb/a'')"
      and "URL_plain (trim ''not a url'') None = None"
      by code_simp+
    with that show ?thesis by (auto simp: example_url_def)
  qed
  then have a: "\<forall>u \<in> set [''https://example.com/en-gb/a'', ''not a url'']. \<forall>obj.
                  URL_plain (trim u) None = Some obj \<longrightarrow> protocol obj = ''http:'' \<or> protocol obj = ''https:''"
    by blast
  have "''https://example.com/a'' \<in> set [''https://example.com/a'']" by simp
  from process_keeps_scheme[OF p this] a
  have "prefix ''http:'' ''https://example.com/a'' \<or> prefix ''https:'' ''https://example.com/a''"
    by blast
  then have "prefix ''https:'' ''https://example.com/a''" by simp
  with p c show ?thesis by (intro conjI)
qed

text \<open>The claim as stated, for every input list, fails on a list with an \<open>ftp\<close> URL; and
  the check of \<open>fetchSitemap\<close>, that the text begins with \<open>http\<close>, lets \<open>httpx\<close>
  through.\<close>

theorem process_other_schemes:
  "process URL_plain SitemapCleaner_short [''ftp://example.com/a''] = Inr [''ftp://example.com/a'']
   \<and> process URL_plain SitemapCleaner_regional [''ftp://example.com/a''] = Inr [''ftp://example.com/a'']
   \<and> fetchSitemap (sitemap_of [''httpx://example.com/b'']) ''https://example.com/sitemap.xml''
       = Inr [''httpx://example.com/b'']
   \<and> process URL_plain SitemapCleaner_short [''httpx://example.com/b''] = Inr [''httpx://example.com/b'']"
  by code_simp


subsection \<open>The example of the two locale variants\<close>

text \<open>
  C4 (amended).  Given what \<open>new URL\<close> makes of the URLs involved, the list
  \<open>[https://example.com/a, https://example.com/en/a]\<close> is cleaned to the single
  \<open>https://example.com/a\<close> by the cleaner whose table holds \<open>/en/\<close>.  The cleaner with the
  regional table collapses \<open>/en-us/a\<close> in the same way, but has no entry \<open>/en/\<close> and
  keeps both URLs of the example.
\<close>

theorem process_locale_example:
  assumes a: "newURL ''https://example.com/a'' None = Some (example_url ''/a'')"
      and b: "newURL ''https://example.com/en/a'' None = Some (example_url ''/en/a'')"
      and c: "newURL ''https://example.com/en-us/a'' None = Some (example_url ''/en-us/a'')"
  shows "process newURL SitemapCleaner_short [''https://example.com/a'', ''https://example.com/en/a'']
           = Inr [''https://example.com/a'']
       \<and> process newURL SitemapCleaner_regional [''https://example.com/a'', ''https://example.com/en-us/a'']
           = Inr [''https://example.com/a'']
       \<and> process newURL SitemapCleaner_regional [''https://example.com/a'', ''https://example.com/en/a'']
           = Inr [''https://example.com/a'', ''https://example.com/en/a'']"
proof -
  have t: "trim ''https://example.com/a'' = ''https://example.com/a''"
          "trim ''https://example.com/en/a'' = ''https://example.com/en/a''"
          "trim ''https://example.com/en-us/a'' = ''https://example.com/en-us/a''"
    by code_simp+
  have h: "URL_href (cleanUrlObject SitemapCleaner_short (example_url ''/a'')) = ''https://example.com/a''"
          "URL_href (cleanUrlObject SitemapCleaner_short (example_url ''/en/a'')) = ''https://example.com/a''"
          "URL_href (cleanUrlObject SitemapCleaner_regional (example_url ''/a'')) = ''https://example.com/a''"
          "URL_href (cleanUrlObject SitemapCleaner_regional (example_url ''/en-us/a'')) = ''https://example.com/a''"
          "URL_href (cleanUrlObject SitemapCleaner_regional (example_url ''/en/a'')) = ''https://example.com/en/a''"
    by code_simp+
  have cs: "cleanSingleUrl newURL SitemapCleaner_short ''https://example.com/a'' = Some ''https://example.com/a''"
           "cleanSingleUrl newURL SitemapCleaner_short ''https://example.com/en/a'' = Some ''https://example.com/a''"
           "cleanSingleUrl newURL SitemapCleaner_regional ''https://example.com/a'' = Some ''https://example.com/a''"
           "cleanSingleUrl newURL SitemapCleaner_regional ''https://example.com/en-us/a'' = Some ''https://example.com/a''"
           "cleanSingleUrl newURL SitemapCleaner_regional ''https://example.com/en/a'' = Some ''https://example.com/en/a''"
    by (simp_all add: cleanSingleUrl_def t a b c h)
  have x: "(\<exists>ext \<in> set (excludedExtensions SitemapCleaner_short). suffix ext (toLowerCase (pathname (example_url ''/a'')))) = False"
          "(\<exists>ext \<in> set (excludedExtensions SitemapCleaner_regional). suffix ext (toLowerCase (pathname (example_url ''/a'')))) = False"
          "(\<exists>ext \<in> set (excludedExtensions SitemapCleaner_regional). suffix ext (toLowerCase (pathname (example_url ''/en/a'')))) = False"
          "(\<exists>path \<in> set excludedPaths. prefix path (toLowerCase (pathname (example_url ''/a'')))) = False"
          "(\<exists>path \<in> set excludedPaths. prefix path (toLowerCase (pathname (example_url ''/en/a'')))) = False"
    by code_simp+
  have ef: "isExcludedFile newURL SitemapCleaner_short ''https://example.com/a'' = Inr False"
           "isExcludedFile newURL SitemapCleaner_regional ''https://example.com/a'' = Inr False"
           "isExcludedFile newURL SitemapCleaner_regional ''https://example.com/en/a'' = Inr False"
           "isExcludedPath newURL ''https://example.com/a'' = Inr False"
           "isExcludedPath newURL ''https://example.com/en/a'' = Inr False"
    by (simp_all only: isExcludedFile_def isExcludedPath_def a b option.case x)
  have srt: "js_sort (set_spread [] [''https://example.com/a'', ''https://example.com/a'']) = [''https://example.com/a'']"
            "js_sort (set_spread [] [''https://example.com/a'', ''https://example.com/en/a''])
               = [''https://example.com/a'', ''https://example.com/en/a'']"
    by code_simp+
  show ?thesis
    by (simp add: process_def cs ef srt del: set_spread.simps)
qed

theorem process_locale_example_witness:
  "process URL_plain SitemapCleaner_short [''https://example.com/a'', ''https://example.com/en/a'']
           = Inr [''https://example.com/a'']
       \<and> process URL_plain SitemapCleaner_regional [''https://example.com/a'', ''https://example.com/en-us/a'']
           = Inr [''https://example.com/a'']"
proof -
  have "URL_plain ''https://example.com/a'' None = Some (example_url ''/a'')"
    and "URL_plain ''https://example.com/en/a'' None = Some (example_url ''/en/a'')"
    and "URL_plain ''https://example.com/en-us/a'' None = Some (example_url ''/en-us/a'')"
    by code_simp+
  from process_locale_example[of URL_plain, OF this] show ?thesis by simp
qed

text \<open>The claim as stated fails for the cleaner with the regional table.\<close>

theorem process_regional_keeps_en:
  "process URL_plain SitemapCleaner_regional [''https://example.com/a'', ''https://example.com/en/a'']
     = Inr [''https://example.com/a'', ''https://example.com/en/a'']
   \<and> ''/en/'' \<notin> set (languagePrefixes SitemapCleaner_regional)"
  by code_simp


subsection \<open>Cleaning a cleaned URL\<close>

lemma searchParams_delete_noop:
  assumes "\<forall>(n, v) \<in> set (searchParams x). n \<noteq> p"
    and "query x = (if urlencoded_serialize (searchParams x) = [] then None
                    else Some (urlencoded_serialize (searchParams x)))"
  shows "searchParams_delete p x = x"
proof -
  have "filter (\<lambda>(n, v). n \<noteq> p) (searchParams x) = searchParams x"
    using assms(1) by (intro filter_True) auto
  then show ?thesis
    using assms(2) by (simp add: searchParams_delete_def Let_def)
qed

lemma foldl_delete_noop:
  assumes "\<forall>(n, v) \<in> set (searchParams x). n \<notin> set ps"
    and "query x = (if urlencoded_serialize (searchParams x) = [] then None
                    else Some (urlencoded_serialize (searchParams x)))"
  shows "foldl (\<lambda>u param. searchParams_delete param u) x ps = x"
  using assms
proof (induction ps)
  case Nil
  then show ?case by simp
next
  case (Cons p ps)
  have "searchParams_delete p x = x"
    using Cons.prems by (intro searchParams_delete_noop) auto
  moreover have "foldl (\<lambda>u param. searchParams_delete param u) x ps = x"
    using Cons.prems by (intro Cons.IH) auto
  ultimately show ?case by simp
qed

lemma foldl_delete_searchParams:
  "searchParams (foldl (\<lambda>u param. searchParams_delete param u) obj ps)
     = filter (\<lambda>(n, v). n \<notin> set ps) (searchParams obj)"
proof (induction ps arbitrary: obj)
  case Nil
  then show ?case by simp
next
  case (Cons p ps)
  have "filter (\<lambda>(n, v). n \<notin> set ps) (filter (\<lambda>(n, v). n \<noteq> p) xs)
          = filter (\<lambda>(n, v). n \<notin> set (p # ps)) xs" for xs :: "(string \<times> string) list"
    by (induction xs) auto
  with Cons.IH[of "searchParams_delete p obj"] show ?case
    by (simp add: searchParams_delete_def Let_def del: set_simps)
qed

lemma foldl_delete_query:
  assumes "ps \<noteq> []"
  shows "query (foldl (\<lambda>u param. searchParams_delete param u) obj ps)
           = (if urlencoded_serialize (searchParams (foldl (\<lambda>u param. searchParams_delete param u) obj ps)) = []
              then None
              else Some (urlencoded_serialize
                           (searchParams (foldl (\<lambda>u param. searchParams_delete param u) obj ps))))"
proof -
  from assms obtain qs p where "ps = qs @ [p]"
    by (cases ps rule: rev_cases) auto
  then show ?thesis by (simp add: searchParams_delete_def Let_def)
qed

lemma stripLanguagePrefix_none:
  "\<forall>p \<in> set ps. \<not> prefix p x \<Longrightarrow> stripLanguagePrefix ps x = x"
  by (induction ps) simp_all

lemma foldl_delete_fields:
  "pathname (foldl (\<lambda>u param. searchParams_delete param u) obj ps) = pathname obj"
  "opaque (foldl (\<lambda>u param. searchParams_delete param u) obj ps) = opaque obj"
  by (induction ps arbitrary: obj) (simp_all add: searchParams_delete_def Let_def)

lemma cleanUrlObject_fields:
  "opaque (cleanUrlObject this obj) = opaque obj"
  "fragment (cleanUrlObject this obj) = None"
  "searchParams (cleanUrlObject this obj)
     = searchParams (foldl (\<lambda>u param. searchParams_delete param u) obj (excludedParams this))"
  "query (cleanUrlObject this obj)
     = query (foldl (\<lambda>u param. searchParams_delete param u) obj (excludedParams this))"
  "\<not> opaque obj \<Longrightarrow> prefix ''/'' (pathname (cleanUrlObject this obj))"
  by (simp_all add: cleanUrlObject_def Let_def set_hash_def set_pathname_def foldl_delete_fields)

lemma cleanUrlObject_idem:
  assumes "\<forall>p \<in> set (languagePrefixes this). \<not> prefix p (pathname (cleanUrlObject this obj))"
  shows "cleanUrlObject this (cleanUrlObject this obj) = cleanUrlObject this obj"
proof -
  let ?c = "cleanUrlObject this obj"
  have F: "foldl (\<lambda>u param. searchParams_delete param u) ?c (excludedParams this) = ?c"
  proof (cases "excludedParams this = []")
    case True
    then show ?thesis by simp
  next
    case False
    show ?thesis
    proof (rule foldl_delete_noop)
      show "\<forall>(n, v) \<in> set (searchParams ?c). n \<notin> set (excludedParams this)"
        by (auto simp: cleanUrlObject_fields foldl_delete_searchParams)
      show "query ?c = (if urlencoded_serialize (searchParams ?c) = [] then None
                        else Some (urlencoded_serialize (searchParams ?c)))"
        unfolding cleanUrlObject_fields using foldl_delete_query[OF False] .
    qed
  qed
  have s: "stripLanguagePrefix (languagePrefixes this) (pathname ?c) = pathname ?c"
    using assms by (rule stripLanguagePrefix_none)
  have "cleanUrlObject this ?c
          = set_hash [] (set_pathname (if prefix ''/'' (pathname ?c) then pathname ?c else ''/'' @ pathname ?c) ?c)"
    unfolding cleanUrlObject_def[of this ?c] Let_def F s ..
  also have "\<dots> = set_hash [] ?c"
    using cleanUrlObject_fields(5)[of obj this]
    by (cases "opaque obj") (simp_all add: set_pathname_def cleanUrlObject_fields(1))
  also have "\<dots> = ?c"
    by (simp add: set_hash_def cleanUrlObject_fields(2)[symmetric])
  finally show ?thesis .
qed

text \<open>
  C5 (amended).  Let \<open>cleanSingleUrl\<close> succeed on \<open>u\<close> with result \<open>s\<close>.  If the path of
  \<open>s\<close> does not begin with a language prefix of the table, and the parser reads \<open>s\<close>
  back as the components it was written from, then \<open>cleanSingleUrl\<close> returns \<open>s\<close> on
  \<open>s\<close>.  (Only the first matching prefix is cut, so a path with two prefixes in a row
  loses one at each application.)
\<close>

theorem cleanSingleUrl_idempotent:
  assumes "newURL (trim u) None = Some obj" and "u \<noteq> []" and "protocol obj \<noteq> []"
    and "newURL (trim (URL_href (cleanUrlObject this obj))) None = Some (cleanUrlObject this obj)"
    and "\<forall>p \<in> set (languagePrefixes this). \<not> prefix p (pathname (cleanUrlObject this obj))"
  shows "cleanSingleUrl newURL this u = Some (URL_href (cleanUrlObject this obj))
         \<and> cleanSingleUrl newURL this (URL_href (cleanUrlObject this obj))
             = Some (URL_href (cleanUrlObject this obj))"
proof -
  have "URL_href (cleanUrlObject this obj) \<noteq> []"
    using assms(3) by (simp add: URL_href_def cleanUrlObject_protocol)
  then show ?thesis
    using assms(1,2,4) cleanUrlObject_idem[OF assms(5)] by (simp add: cleanSingleUrl_def)
qed

theorem cleanSingleUrl_idempotent_witness:
  "cleanSingleUrl URL_plain SitemapCleaner_short ''https://example.com/en/a?utm_source=x&id=7#top''
     = Some ''https://example.com/a?id=7''
   \<and> cleanSingleUrl URL_plain SitemapCleaner_short ''https://example.com/a?id=7''
     = Some ''https://example.com/a?id=7''"
proof -
  let ?u = "''https://example.com/en/a?utm_source=x&id=7#top''"
  let ?obj = "(example_url ''/en/a'')\<lparr>query := Some ''utm_source=x&id=7'',
                 searchParams := [(''utm_source'', ''x''), (''id'', ''7'')], fragment := Some ''top''\<rparr>"
  have p: "URL_plain (trim ?u) None = Some ?obj" by code_simp
  have n: "?u \<noteq> []" by simp
  have q: "protocol ?obj \<noteq> []" by (simp add: example_url_def)
  have h: "URL_href (cleanUrlObject SitemapCleaner_short ?obj) = ''https://example.com/a?id=7''"
    by code_simp
  have r: "URL_plain (trim (URL_href (cleanUrlObject SitemapCleaner_short ?obj))) None
             = Some (cleanUrlObject SitemapCleaner_short ?obj)"
    by code_simp
  have f: "\<forall>p \<in> set (languagePrefixes SitemapCleaner_short).
             \<not> prefix p (pathname (cleanUrlObject SitemapCleaner_short ?obj))"
    by code_simp
  from cleanSingleUrl_idempotent[of URL_plain ?u ?obj SitemapCleaner_short, OF p n q r f]
  show ?thesis unfolding h .
qed


text \<open>The claim as stated fails on a path with two language prefixes in a row, for either
  table.\<close>

theorem cleanSingleUrl_stacked_prefixes:
  "cleanSingleUrl URL_plain SitemapCleaner_short ''https://example.com/en/en/a''
     = Some ''https://example.com/en/a''
   \<and> cleanSingleUrl URL_plain SitemapCleaner_short ''https://example.com/en/a''
     = Some ''https://example.com/a''
   \<and> cleanSingleUrl URL_plain SitemapCleaner_regional ''https://example.com/en-us/en-gb/a''
     = Some ''https://example.com/en-gb/a''
   \<and> cleanSingleUrl URL_plain SitemapCleaner_regional ''https://example.com/en-gb/a''
     = Some ''https://example.com/a''"
  by code_simp


end
